theory Spec2Isabelle
  imports Main "HOL-Library.AList" "HOL-Library.Sublist" "HOL-Library.Multiset"
    "HOL-Library.Char_ord" "HOL-Library.List_Lexorder"
begin

section \<open>Strings\<close>

text \<open>
  Python \<open>str\<close> values are modelled as \<^typ>\<open>string\<close>, read as ASCII text.
  \<open>s.lower()\<close> (and SQLite's \<open>LOWER\<close>) map \<open>A\<close>..\<open>Z\<close> to \<open>a\<close>..\<open>z\<close> and leave
  every other character alone; \<open>s.strip()\<close> removes the ASCII white space of
  \<open>str.isspace\<close> at both ends. The Python test \<open>kw in s\<close> is \<^term>\<open>sublist kw s\<close>,
  \<open>s.startswith(p)\<close> is \<^term>\<open>prefix p s\<close>.
\<close>

definition lower_char :: "char \<Rightarrow> char" where
  "lower_char c =
     (let n = (of_char c :: nat) in if 65 \<le> n \<and> n \<le> 90 then char_of (n + 32) else c)"

definition lower :: "string \<Rightarrow> string" where
  "lower s = map lower_char s"

definition is_space :: "char \<Rightarrow> bool" where
  "is_space c = (let n = (of_char c :: nat) in (9 \<le> n \<and> n \<le> 13) \<or> (28 \<le> n \<and> n \<le> 32))"

definition strip :: "string \<Rightarrow> string" where
  "strip s = rev (dropWhile is_space (rev (dropWhile is_space s)))"

definition any_in :: "string list \<Rightarrow> string \<Rightarrow> bool" where
  \<comment> \<open>\<open>any(kw in text for kw in kws)\<close>\<close>
  "any_in kws text = list_ex (\<lambda>kw. sublist kw text) kws"

section \<open>models.py\<close>

datatype JobSource = LINKEDIN | TWITTER

fun source_value :: "JobSource \<Rightarrow> string" where
  "source_value LINKEDIN = ''linkedin''"
| "source_value TWITTER = ''twitter''"

text \<open>
  A \<open>datetime\<close> is carried as its \<open>isoformat()\<close> text, which is the only way the
  store sees it.
\<close>

record Job =
  title :: string
  company :: string
  location :: string
  description :: string
  application_email :: string
  application_url :: string
  source :: JobSource
  source_id :: string
  source_url :: string
  posted_at :: "string option"
  discovered_at :: string

definition new_Job :: "string \<Rightarrow> string \<Rightarrow> JobSource \<Rightarrow> string \<Rightarrow> Job" where
  \<comment> \<open>\<open>Job(title=t, company=c, source=src)\<close> built at time \<open>now\<close>: the other fields
    take their declared defaults\<close>
  "new_Job t c src now = \<lparr>title = t, company = c, location = [], description = [],
     application_email = [], application_url = [], source = src, source_id = [],
     source_url = [], posted_at = None, discovered_at = now\<rparr>"

definition unique_key :: "Job \<Rightarrow> string" where
  "unique_key j =
     (if source_id j \<noteq> [] then source_value (source j) @ '':'' @ source_id j
      else lower (source_value (source j) @ '':'' @ title j @ '':'' @ company j))"

record Application =
  app_job_title :: string
  app_company :: string
  app_recipient_email :: string
  app_subject :: string
  app_body :: string
  app_source :: JobSource
  app_source_url :: string
  app_sent_at :: string
  app_status :: string

definition JobSource_of :: "string \<Rightarrow> JobSource option" where
  \<comment> \<open>\<open>JobSource(text)\<close>; \<open>None\<close> stands for the \<open>ValueError\<close> of a text that names no member\<close>
  "JobSource_of v = (if v = ''linkedin'' then Some LINKEDIN
                     else if v = ''twitter'' then Some TWITTER else None)"

record LimitsConfig =
  max_applications_per_run :: int
  max_applications_per_day :: int

section \<open>db.py\<close>

text \<open>
  One record per table row; the fields carry the alias the queries use (\<open>s\<close>, \<open>a\<close>,
  \<open>d\<close>). The \<open>id\<close> column of \<open>applications\<close> is never read and is left out. A table
  is the list of its rows in insertion order, and every function of \<open>db.py\<close> takes the
  store and returns it: each one opens the database, runs one statement and commits.
\<close>

record seen_row =
  s_unique_key :: string
  s_title :: string
  s_company :: string
  s_location :: string
  s_description :: string
  s_application_email :: string
  s_source :: string
  s_source_id :: string
  s_source_url :: string
  s_discovered_at :: string

record application_row =
  a_job_title :: string
  a_company :: string
  a_recipient_email :: string
  a_subject :: string
  a_body :: string
  a_source :: string
  a_source_url :: string
  a_sent_at :: string
  a_status :: string

record draft_row =
  d_id :: int
  d_job_unique_key :: string
  d_job_title :: string
  d_company :: string
  d_location :: string
  d_recipient_email :: string
  d_subject :: string
  d_body :: string
  d_source :: string
  d_source_url :: string
  d_created_at :: string
  d_status :: string

record store =
  seen_jobs :: "seen_row list"
  applications :: "application_row list"
  drafts :: "draft_row list"

definition empty_store :: store where
  \<comment> \<open>the three tables right after \<open>init_db\<close> on a fresh file\<close>
  "empty_store = \<lparr>seen_jobs = [], applications = [], drafts = []\<rparr>"

text \<open>
  The primary keys of the schema make \<open>seen_jobs.unique_key\<close> and \<open>drafts.id\<close> unique:
  \<^term>\<open>distinct (map s_unique_key (seen_jobs db))\<close> and
  \<^term>\<open>distinct (map d_id (drafts db))\<close>, which the theorems assume where they need it.
\<close>

text \<open>What a Python call hands back, where the claims are about it.\<close>

datatype py_value = PyNone | PyBool bool

definition is_job_seen :: "Job \<Rightarrow> store \<Rightarrow> bool" where
  "is_job_seen job db = list_ex (\<lambda>r. s_unique_key r = unique_key job) (seen_jobs db)"

definition seen_row_of :: "Job \<Rightarrow> seen_row" where
  "seen_row_of job = \<lparr>s_unique_key = unique_key job, s_title = title job, s_company = company job,
     s_location = location job, s_description = description job,
     s_application_email = application_email job, s_source = source_value (source job),
     s_source_id = source_id job, s_source_url = source_url job,
     s_discovered_at = discovered_at job\<rparr>"

definition mark_job_seen :: "Job \<Rightarrow> store \<Rightarrow> py_value \<times> store" where
  \<comment> \<open>\<open>INSERT OR IGNORE\<close>: a row whose key is taken is dropped; the function has no
    \<open>return\<close> statement\<close>
  "mark_job_seen job db =
     (PyNone,
      if list_ex (\<lambda>r. s_unique_key r = unique_key job) (seen_jobs db) then db
      else db\<lparr>seen_jobs := seen_jobs db @ [seen_row_of job]\<rparr>)"

definition application_row_of :: "Application \<Rightarrow> application_row" where
  "application_row_of app = \<lparr>a_job_title = app_job_title app, a_company = app_company app,
     a_recipient_email = app_recipient_email app, a_subject = app_subject app,
     a_body = app_body app, a_source = source_value (app_source app),
     a_source_url = app_source_url app, a_sent_at = app_sent_at app,
     a_status = app_status app\<rparr>"

definition log_application :: "Application \<Rightarrow> store \<Rightarrow> store" where
  "log_application app db = db\<lparr>applications := applications db @ [application_row_of app]\<rparr>"

definition get_applications_today :: "string \<Rightarrow> store \<Rightarrow> int" where
  \<comment> \<open>\<open>today_start\<close> is the ISO text of the last UTC midnight; SQLite compares the two
    texts byte by byte\<close>
  "get_applications_today today_start db =
     int (length (filter (\<lambda>a. a_sent_at a \<ge> today_start) (applications db)))"

definition get_contacted_companies :: "store \<Rightarrow> string set" where
  "get_contacted_companies db =
     set (map (\<lambda>a. lower (a_company a)) (applications db))
     \<union> set (map (\<lambda>d. lower (d_company d)) (filter (\<lambda>d. d_status d \<noteq> ''discarded'') (drafts db)))"

definition get_sent_companies :: "store \<Rightarrow> string set" where
  "get_sent_companies db = set (map (\<lambda>a. lower (a_company a)) (applications db))"

definition order_by_desc :: "('a \<Rightarrow> string) \<Rightarrow> 'a list \<Rightarrow> 'a list" where
  \<comment> \<open>\<open>ORDER BY col DESC\<close>. SQL leaves the order of rows with equal keys open; here they
    keep their table order\<close>
  "order_by_desc col rows = rev (sort_key col (rev rows))"

definition get_pending_jobs :: "store \<Rightarrow> seen_row list" where
  "get_pending_jobs db =
     order_by_desc s_discovered_at
       (filter (\<lambda>s. s_application_email s \<noteq> []
            \<and> \<not> list_ex (\<lambda>a. a_job_title a = s_title s \<and> a_company a = s_company s) (applications db)
            \<and> \<not> list_ex (\<lambda>d. d_job_unique_key d = s_unique_key s) (drafts db))
          (seen_jobs db))"

definition get_drafts :: "string option \<Rightarrow> store \<Rightarrow> draft_row list" where
  \<comment> \<open>\<open>if status:\<close> is false for \<open>None\<close> and for the empty text\<close>
  "get_drafts status db =
     (case status of
        None \<Rightarrow> order_by_desc d_created_at (drafts db)
      | Some st \<Rightarrow>
          if st \<noteq> [] then order_by_desc d_created_at (filter (\<lambda>d. d_status d = st) (drafts db))
          else order_by_desc d_created_at (drafts db))"

definition get_draft_by_id :: "int \<Rightarrow> store \<Rightarrow> draft_row option" where
  "get_draft_by_id draft_id db = find (\<lambda>d. d_id d = draft_id) (drafts db)"

definition update_draft_status :: "int \<Rightarrow> string \<Rightarrow> store \<Rightarrow> bool \<times> store" where
  \<comment> \<open>\<open>UPDATE drafts SET status = ? WHERE id = ?\<close>; the result is \<open>rowcount > 0\<close>\<close>
  "update_draft_status draft_id status db =
     (list_ex (\<lambda>d. d_id d = draft_id) (drafts db),
      db\<lparr>drafts := map (\<lambda>d. if d_id d = draft_id then d\<lparr>d_status := status\<rparr> else d) (drafts db)\<rparr>)"

section \<open>cli.py: approving and discarding drafts\<close>

text \<open>
  The ids of the two commands are typed by the user and parsed as Python integers of any
  size. \<open>conn.execute\<close> binds an integer parameter as a 64-bit SQLite INTEGER and raises
  \<open>OverflowError\<close> for any other; \<open>get_draft_by_id\<close> and \<open>update_draft_status\<close> above
  give the outcome of their statement for an id that binds. In a command the first
  statement run for an id is the one of \<open>get_draft_by_id\<close>; the exception is caught
  nowhere, so the command stops there: the lines printed and the updates committed for
  the earlier ids stay, the later ids are not looked at.
\<close>

datatype error = OverflowError

definition sqlite_integer :: "int \<Rightarrow> bool" where
  "sqlite_integer i \<longleftrightarrow> - (2 ^ 63) \<le> i \<and> i < 2 ^ 63"

text \<open>The lines the loops of the two commands print, one constructor per message.\<close>

datatype echo =
    Not_found int
  | Already_sent int
  | Approved int string string
  | Discarded int string string

record cmd_run =
  cmd_store :: store
  cmd_output :: "echo list"
  cmd_raised :: "error option"

definition echo_then :: "echo \<Rightarrow> cmd_run \<Rightarrow> cmd_run" where
  \<comment> \<open>a line is printed, then the loop goes on\<close>
  "echo_then line r = r\<lparr>cmd_output := line # cmd_output r\<rparr>"

fun approve_drafts_cmd :: "int list \<Rightarrow> store \<Rightarrow> cmd_run" where
  "approve_drafts_cmd [] db = \<lparr>cmd_store = db, cmd_output = [], cmd_raised = None\<rparr>"
| "approve_drafts_cmd (draft_id # draft_ids) db =
     (if \<not> sqlite_integer draft_id
      then \<lparr>cmd_store = db, cmd_output = [], cmd_raised = Some OverflowError\<rparr>
      else case get_draft_by_id draft_id db of
        None \<Rightarrow> echo_then (Not_found draft_id) (approve_drafts_cmd draft_ids db)
      | Some draft \<Rightarrow>
          if d_status draft = ''sent''
          then echo_then (Already_sent draft_id) (approve_drafts_cmd draft_ids db)
          else echo_then (Approved draft_id (d_job_title draft) (d_company draft))
                 (approve_drafts_cmd draft_ids (snd (update_draft_status draft_id ''approved'' db))))"


section \<open>email_finder.py\<close>

definition is_alpha :: "char \<Rightarrow> bool" where
  "is_alpha c = (let n = (of_char c :: nat) in (65 \<le> n \<and> n \<le> 90) \<or> (97 \<le> n \<and> n \<le> 122))"

definition is_alnum :: "char \<Rightarrow> bool" where
  "is_alnum c = (let n = (of_char c :: nat) in is_alpha c \<or> (48 \<le> n \<and> n \<le> 57))"

definition local_char :: "char \<Rightarrow> bool" where
  \<comment> \<open>the class \<open>[a-zA-Z0-9._%+\-]\<close>\<close>
  "local_char c = (is_alnum c \<or> c \<in> set ''._%+-'')"

definition domain_char :: "char \<Rightarrow> bool" where
  \<comment> \<open>the class \<open>[a-zA-Z0-9.\-]\<close>\<close>
  "domain_char c = (is_alnum c \<or> c \<in> set ''.-'')"

text \<open>
  \<open>EMAIL_PATTERN\<close> is \<open>[a-zA-Z0-9._%+\-]+@[a-zA-Z0-9.\-]+\.[a-zA-Z]{2,}\<close>, matched by a
  backtracking engine with greedy repetitions. At a given start:
  \<^item> the local part is the longest run of local characters, since a shorter one is
    followed by a local character and not by \<open>@\<close>; it must not be empty and \<open>@\<close> must
    follow;
  \<^item> the domain repetition first takes the whole run of domain characters after \<open>@\<close> and
    gives characters back one at a time; it stops at the longest prefix (of one
    character at least) that is followed by a dot and two letters or more, and the match
    then takes all the letters that follow the dot.
\<close>

definition email_match_at :: "string \<Rightarrow> string option" where
  "email_match_at s =
     (let local_part = takeWhile local_char s; rest = dropWhile local_char s in
      if local_part = [] then None
      else case rest of
        [] \<Rightarrow> None
      | c # after \<Rightarrow>
          if c \<noteq> CHR ''@'' then None
          else
            let run = takeWhile domain_char after in
            case find (\<lambda>n. run ! n = CHR ''.'' \<and> 2 \<le> length (takeWhile is_alpha (drop (Suc n) run)))
                   (rev [1..<length run]) of
              None \<Rightarrow> None
            | Some n \<Rightarrow>
                Some (local_part @ ''@'' @ take n run @ ''.'' @ takeWhile is_alpha (drop (Suc n) run)))"

text \<open>
  \<open>EMAIL_PATTERN.findall(text)\<close>: the matches from left to right, each search starting
  where the last match ended. A match has one character at least, so after a match \<open>m\<close>
  at \<open>c # cs\<close> the search goes on in \<open>drop (length m - 1) cs\<close>.
\<close>

fun findall_emails :: "string \<Rightarrow> string list" where
  "findall_emails [] = []"
| "findall_emails (c # cs) =
     (case email_match_at (c # cs) of
        None \<Rightarrow> findall_emails cs
      | Some m \<Rightarrow> m # findall_emails (drop (length m - 1) cs))"

definition SKIP_DOMAINS :: "string list" where
  "SKIP_DOMAINS = [''example.com'', ''test.com'', ''linkedin.com'', ''licdn.com'',
     ''facebook.com'', ''twitter.com'', ''x.com'', ''google.com'',
     ''googleapis.com'', ''github.com'', ''githubusercontent.com'',
     ''sentry.io'', ''gravatar.com'', ''wp.com'', ''wordpress.com'',
     ''w3.org'', ''schema.org'', ''cloudflare.com'', ''amazonaws.com'',
     ''gstatic.com'', ''bootstrapcdn.com'', ''jquery.com'']"

definition SKIP_PREFIXES :: "string list" where
  "SKIP_PREFIXES = [''noreply'', ''no-reply'', ''donotreply'', ''do-not-reply'',
     ''mailer-daemon'', ''postmaster'', ''webmaster'', ''admin'',
     ''support'', ''abuse'', ''security'', ''privacy'']"

definition COMMON_HR_PREFIXES :: "string list" where
  "COMMON_HR_PREFIXES = [''hr'', ''careers'', ''jobs'', ''hiring'', ''recruiting'',
     ''recruitment'', ''talent'', ''apply'', ''career'', ''people'']"

definition CAREER_PATHS :: "string list" where
  "CAREER_PATHS = [''/careers'', ''/jobs'', ''/contact'', ''/about'',
     ''/contact-us'', ''/about-us'', ''/work-with-us'',
     ''/join-us'', ''/join'', ''/hiring'']"

definition before_first :: "char \<Rightarrow> string \<Rightarrow> string" where
  \<comment> \<open>\<open>s.split(c)[0]\<close>\<close>
  "before_first c s = takeWhile (\<lambda>x. x \<noteq> c) s"

definition after_last :: "char \<Rightarrow> string \<Rightarrow> string" where
  \<comment> \<open>\<open>s.split(c)[-1]\<close>\<close>
  "after_last c s = rev (takeWhile (\<lambda>x. x \<noteq> c) (rev s))"

definition is_valid_email :: "string \<Rightarrow> bool" where
  "is_valid_email email =
     (let lower = lower email;
          domain = (if CHR ''@'' \<in> set lower then after_last CHR ''@'' lower else []);
          prefix = (if CHR ''@'' \<in> set lower then before_first CHR ''@'' lower else [])
      in
      if domain \<in> set SKIP_DOMAINS then False
      else if prefix \<in> set SKIP_PREFIXES then False
      else if suffix ''.png'' domain \<or> suffix ''.jpg'' domain \<or> suffix ''.gif'' domain then False
      else if length email > 80 then False
      else True)"

definition extract_emails_from_text :: "string \<Rightarrow> string list" where
  "extract_emails_from_text text = filter is_valid_email (findall_emails text)"

definition rank_emails :: "string list \<Rightarrow> string list" where
  "rank_emails emails =
     (if emails = [] then []
      else
        let is_hr = (\<lambda>email. any_in COMMON_HR_PREFIXES (lower (before_first CHR ''@'' email)))
        in filter is_hr emails @ filter (\<lambda>email. \<not> is_hr email) emails)"

definition generate_common_patterns :: "string \<Rightarrow> string list" where
  "generate_common_patterns domain = map (\<lambda>prefix. prefix @ ''@'' @ domain) (take 6 COMMON_HR_PREFIXES)"

text \<open>
  What the code reads of a parsed page: its links with an \<open>href\<close> (the \<open>href\<close> and the
  stripped text of the link), its text, and the \<open>href\<close>s of the links inside the first
  \<open>div\<close> of class \<open>show-more-less-html__markup\<close>, if there is one.
\<close>

record soup =
  a_tags :: "(string \<times> string) list"
  page_text :: string
  desc_div_hrefs :: "string list option"

text \<open>
  The library and the network are parameters:
  \<^item> \<open>requests_get\<close>: the parsed page of a URL, or \<open>None\<close> for a status other than 200 or
    an exception; its first argument is the list of the URLs requested before;
  \<^item> \<open>urlparse\<close>: the scheme and the network location of a URL;
  \<^item> \<open>set_order\<close>: the order in which \<open>list(emails)\<close> lists a Python set, given its elements
    in the order of their insertion.
  Every call of \<open>_fetch_page\<close> is logged: the functions that fetch take the list of the
  URLs requested so far and return it extended.
\<close>

record web =
  requests_get :: "string list \<Rightarrow> string \<Rightarrow> soup option"
  urlparse :: "string \<Rightarrow> string \<times> string"
  set_order :: "string list \<Rightarrow> string list"

definition fetch_page :: "web \<Rightarrow> string \<Rightarrow> string list \<Rightarrow> soup option \<times> string list" where
  "fetch_page w url fetched = (requests_get w fetched url, fetched @ [url])"

definition set_add :: "string \<Rightarrow> string list \<Rightarrow> string list" where
  "set_add x xs = (if x \<in> set xs then xs else xs @ [x])"

definition extract_emails_from_soup :: "web \<Rightarrow> soup \<Rightarrow> string list" where
  "extract_emails_from_soup w page =
     (let from_links =
            fold (\<lambda>(href, _) emails.
                    if prefix ''mailto:'' href then
                      (let addr = strip (before_first CHR ''?'' (drop 7 href)) in
                       if is_valid_email addr then set_add (lower addr) emails else emails)
                    else emails)
                 (a_tags page) [];
          from_text =
            fold (\<lambda>email emails. set_add (lower email) emails)
                 (extract_emails_from_text (page_text page)) from_links
      in set_order w from_text)"

fun first_site_link :: "(string \<times> string) list \<Rightarrow> string option" where
  "first_site_link [] = None"
| "first_site_link ((href, text) # tags) =
     (if any_in [''website'', ''our site'', ''company site'', ''visit us''] (lower text)
         \<and> \<not> sublist ''linkedin.com'' href
      then Some href else first_site_link tags)"

fun first_desc_link :: "web \<Rightarrow> string list \<Rightarrow> string option" where
  "first_desc_link w [] = None"
| "first_desc_link w (href # hrefs) =
     (let (scheme, netloc) = urlparse w href in
      if (scheme = ''http'' \<or> scheme = ''https'') \<and> \<not> sublist ''linkedin.com'' href
      then Some (scheme @ ''://'' @ netloc) else first_desc_link w hrefs)"

definition get_company_website_from_linkedin :: "web \<Rightarrow> string \<Rightarrow> soup option \<Rightarrow> string" where
  "get_company_website_from_linkedin w company_name job_page_soup =
     (case job_page_soup of
        None \<Rightarrow> []
      | Some page \<Rightarrow>
          (case first_site_link (a_tags page) of
             Some href \<Rightarrow> href
           | None \<Rightarrow>
               (case desc_div_hrefs page of
                  None \<Rightarrow> []
                | Some hrefs \<Rightarrow> (case first_desc_link w hrefs of Some site \<Rightarrow> site | None \<Rightarrow> []))))"

fun scrape_pages :: "web \<Rightarrow> nat \<Rightarrow> string list \<Rightarrow> nat \<Rightarrow> string list \<Rightarrow> string list \<Rightarrow> string list
    \<Rightarrow> string list \<times> string list" where
  "scrape_pages w max_pages [] checked visited emails fetched = (emails, fetched)"
| "scrape_pages w max_pages (page_url # pages) checked visited emails fetched =
     (if checked \<ge> max_pages then (emails, fetched)
      else if page_url \<in> set visited then scrape_pages w max_pages pages checked visited emails fetched
      else
        (case fetch_page w page_url fetched of
           (None, fetched') \<Rightarrow>
             scrape_pages w max_pages pages checked (page_url # visited) emails fetched'
         | (Some page, fetched') \<Rightarrow>
             (let emails' = fold set_add (extract_emails_from_soup w page) emails in
              if emails' \<noteq> [] then (emails', fetched')
              else scrape_pages w max_pages pages (Suc checked) (page_url # visited) emails' fetched')))"

definition scrape_website_for_emails :: "web \<Rightarrow> string \<Rightarrow> string list \<Rightarrow> string list \<times> string list" where
  "scrape_website_for_emails w base_url fetched =
     (let (scheme, netloc) = urlparse w base_url;
          base_domain = scheme @ ''://'' @ netloc;
          pages_to_check = base_domain # map (\<lambda>path. base_domain @ path) CAREER_PATHS;
          (emails, fetched') = scrape_pages w 4 pages_to_check 0 [] [] fetched
      in (set_order w emails, fetched'))"

definition pattern_fallback :: "web \<Rightarrow> string \<Rightarrow> string" where
  \<comment> \<open>strategy 4; \<open>lstrip("www.")\<close> removes leading \<open>w\<close> and \<open>.\<close> characters\<close>
  "pattern_fallback w company_website =
     (let (scheme, netloc) = urlparse w company_website;
          domain = dropWhile (\<lambda>c. c \<in> set ''www.'') netloc
      in if domain \<noteq> [] \<and> CHR ''.'' \<in> set domain then hd (generate_common_patterns domain) else [])"

definition find_application_email :: "web \<Rightarrow> string \<Rightarrow> string \<Rightarrow> string \<Rightarrow> soup option
    \<Rightarrow> string \<times> string list" where
  \<comment> \<open>the result: the address found (or the empty text) and the URLs requested\<close>
  "find_application_email w job_description job_url company_name job_page_soup =
     (let desc_emails = extract_emails_from_text job_description in
      if desc_emails \<noteq> [] \<and> rank_emails desc_emails \<noteq> []
      then (hd (rank_emails desc_emails), [])
      else
        let page_emails = (case job_page_soup of None \<Rightarrow> [] | Some page \<Rightarrow> extract_emails_from_soup w page) in
        if page_emails \<noteq> [] \<and> rank_emails page_emails \<noteq> []
        then (hd (rank_emails page_emails), [])
        else
          let company_website = get_company_website_from_linkedin w company_name job_page_soup;
              clean_name = filter is_alnum (lower company_name);
              guessed = ''https://www.'' @ clean_name @ ''.com'';
              (company_website, fetched) =
                (if company_website = [] \<and> company_name \<noteq> [] \<and> clean_name \<noteq> []
                 then (case fetch_page w guessed [] of
                         (Some page, fetched) \<Rightarrow> (guessed, fetched)
                       | (None, fetched) \<Rightarrow> (company_website, fetched))
                 else (company_website, []))
          in
          if company_website \<noteq> [] then
            (let (site_emails, fetched') = scrape_website_for_emails w company_website fetched in
             if site_emails \<noteq> [] \<and> rank_emails site_emails \<noteq> []
             then (hd (rank_emails site_emails), fetched')
             else (pattern_fallback w company_website, fetched'))
          else ([], fetched))"

section \<open>agent.py: scoring and one-per-company selection\<close>

definition js_keywords :: "string list" where
  "js_keywords = [''javascript'', ''typescript'', ''js '', ''ts '', ''react'', ''node.js'',
     ''nodejs'', ''next.js'', ''nextjs'', ''nestjs'']"

definition job_priority_score :: "Job \<Rightarrow> int" where
  "job_priority_score job =
     (let title = lower (title job);
          desc = lower (description job);
          combined = title @ '' '' @ desc;
          score = 0;
          score = (if any_in js_keywords combined then score + 100 else score);
          score = (if any_in [''full stack'', ''fullstack'', ''full-stack''] title then score + 50
                   else if any_in [''frontend'', ''front-end'', ''front end''] title then score + 30
                   else if any_in [''backend'', ''back-end'', ''back end''] title then score + 20
                   else score);
          score = (if sublist ''react native'' combined then score + 40 else score)
      in score)"

text \<open>The two postings of one employer used as the running example, and a posting whose
  title ends where its description goes on.\<close>

definition acme_full_stack :: Job where
  "acme_full_stack = new_Job ''Full Stack Engineer'' ''Acme'' LINKEDIN ''2024-01-01T00:00:00''"

definition acme_backend :: Job where
  "acme_backend = new_Job ''Backend Engineer'' ''Acme'' LINKEDIN ''2024-01-01T00:00:00''"

definition react_then_native :: Job where
  "react_then_native =
     (new_Job ''react'' ''Acme'' LINKEDIN ''2024-01-01T00:00:00'')\<lparr>description := ''native''\<rparr>"

text \<open>
  \<open>_pick_best_per_company\<close> takes \<open>Job\<close> objects or the row dictionaries of
  \<open>get_pending_jobs\<close> (\<open>isinstance(job, dict)\<close>); a dictionary is scored through a
  temporary \<open>Job\<close> built from its title, company and description.
\<close>

datatype candidate = JobObj Job | RowDict seen_row

definition temp_job :: "seen_row \<Rightarrow> Job" where
  \<comment> \<open>the creation time of the temporary object is never read\<close>
  "temp_job r = (new_Job (s_title r) (s_company r) LINKEDIN [])\<lparr>description := s_description r\<rparr>"

fun company_key :: "candidate \<Rightarrow> string" where
  "company_key (RowDict r) = lower (strip (s_company r))"
| "company_key (JobObj j) = lower (strip (company j))"

fun cand_score :: "candidate \<Rightarrow> int" where
  "cand_score (RowDict r) = job_priority_score (temp_job r)"
| "cand_score (JobObj j) = job_priority_score j"

text \<open>
  \<open>by_company\<close> is a Python dictionary, which keeps its keys in insertion order and
  leaves a key in place when its value is overwritten: an association list under
  \<^const>\<open>AList.update\<close>.
\<close>

fun pick_loop :: "candidate list \<Rightarrow> string set \<Rightarrow> (string \<times> candidate \<times> int) list
    \<Rightarrow> (string \<times> candidate \<times> int) list" where
  "pick_loop [] contacted by_company = by_company"
| "pick_loop (job # jobs) contacted by_company =
     (let ckey = company_key job; score = cand_score job in
      if ckey \<in> contacted then pick_loop jobs contacted by_company
      else if (case map_of by_company ckey of None \<Rightarrow> True | Some entry \<Rightarrow> score > snd entry)
        then pick_loop jobs contacted (AList.update ckey (job, score) by_company)
      else pick_loop jobs contacted by_company)"

definition pick_best_per_company :: "candidate list \<Rightarrow> string set \<Rightarrow> candidate list" where
  "pick_best_per_company jobs contacted = map (\<lambda>entry. fst (snd entry)) (pick_loop jobs contacted [])"

section \<open>agent.py: the workflows\<close>

text \<open>
  The collaborators of a workflow, which the code reaches through the network or the
  clock, are parameters of the model:
  \<^item> \<open>today_start\<close>: the ISO text of the last UTC midnight, read by
    \<open>get_applications_today\<close>;
  \<^item> \<open>generate_application_email\<close>: the generated subject and body for a posting;
  \<^item> \<open>send_application_email\<close>: whether the delivery of a message (recipient, subject,
    body) succeeds; its first argument is the number of deliveries the run has attempted
    before, so that the same message may fail once and succeed later;
  \<^item> \<open>utcnow\<close>: the ISO text of the clock when the \<open>Application\<close> object of a
    delivery is built, by the number of deliveries attempted before.
\<close>

record world =
  today_start :: string
  generate_application_email :: "Job \<Rightarrow> string \<times> string"
  send_application_email :: "nat \<Rightarrow> string \<Rightarrow> string \<Rightarrow> string \<Rightarrow> bool"
  utcnow :: "nat \<Rightarrow> string"

text \<open>The \<open>summary\<close> dictionary of \<open>run_agent\<close>, without its \<open>started_at\<close> time stamp,
  and the one of \<open>send_approved_drafts\<close>.\<close>

record summary =
  jobs_found :: int
  jobs_new :: int
  jobs_with_email :: int
  jobs_no_email :: int
  applications_sent :: int
  applications_failed :: int
  dry_run :: bool

record drafts_summary =
  drafts_found :: int
  sd_applications_sent :: int
  sd_applications_failed :: int
  sd_dry_run :: bool

text \<open>
  The state of a run: its summary, the store, the counter of the budget
  (\<open>applied_count\<close>, \<open>sent_count\<close>), and the log of the calls of
  \<open>send_application_email\<close>, each with the candidate it was made for and its result.
  \<open>raised\<close> is set when the run ends in an exception.
\<close>

record ('c, 's) run =
  summary :: 's
  run_store :: store
  deliveries :: "('c \<times> bool) list"
  applied_count :: int
  raised :: bool

fun filter_new :: "Job list \<Rightarrow> store \<Rightarrow> Job list \<Rightarrow> Job list \<Rightarrow> Job list \<times> Job list \<times> store" where
  "filter_new [] db new_with_email new_no_email = (new_with_email, new_no_email, db)"
| "filter_new (job # jobs) db new_with_email new_no_email =
     (if is_job_seen job db then filter_new jobs db new_with_email new_no_email
      else let db' = snd (mark_job_seen job db) in
        if application_email job \<noteq> [] then filter_new jobs db' (new_with_email @ [job]) new_no_email
        else filter_new jobs db' new_with_email (new_no_email @ [job]))"

definition application_of_job :: "Job \<Rightarrow> string \<Rightarrow> string \<Rightarrow> string \<Rightarrow> Application" where
  "application_of_job job subject body now = \<lparr>app_job_title = title job, app_company = company job,
     app_recipient_email = application_email job, app_subject = subject, app_body = body,
     app_source = source job, app_source_url = source_url job, app_sent_at = now,
     app_status = ''sent''\<rparr>"

fun apply_loop :: "world \<Rightarrow> bool \<Rightarrow> int \<Rightarrow> Job list \<Rightarrow> (Job, summary) run \<Rightarrow> (Job, summary) run" where
  "apply_loop w dry max_this_run [] st = st"
| "apply_loop w dry max_this_run (job # jobs) st =
     (if applied_count st \<ge> max_this_run then st
      else
        let (subject, body) = generate_application_email w job in
        if dry then
          apply_loop w dry max_this_run jobs
            (st\<lparr>applied_count := applied_count st + 1,
                summary := (summary st)\<lparr>applications_sent := applications_sent (summary st) + 1\<rparr>\<rparr>)
        else
          let n = length (deliveries st);
              success = send_application_email w n (application_email job) subject body
          in
          if success then
            apply_loop w dry max_this_run jobs
              (st\<lparr>run_store := log_application (application_of_job job subject body (utcnow w n)) (run_store st),
                  deliveries := deliveries st @ [(job, True)],
                  applied_count := applied_count st + 1,
                  summary := (summary st)\<lparr>applications_sent := applications_sent (summary st) + 1\<rparr>\<rparr>)
          else
            apply_loop w dry max_this_run jobs
              (st\<lparr>deliveries := deliveries st @ [(job, False)],
                  summary := (summary st)\<lparr>applications_failed := applications_failed (summary st) + 1\<rparr>\<rparr>))"

definition jobs_of :: "candidate list \<Rightarrow> Job list" where
  \<comment> \<open>the selection returns members of its input: in \<open>run_agent\<close> they are all \<open>Job\<close> objects\<close>
  "jobs_of cs = concat (map (\<lambda>c. case c of JobObj j \<Rightarrow> [j] | RowDict r \<Rightarrow> []) cs)"

definition run_agent :: "world \<Rightarrow> LimitsConfig \<Rightarrow> bool \<Rightarrow> Job list \<Rightarrow> store \<Rightarrow> (Job, summary) run" where
  \<comment> \<open>\<open>scraped\<close> is what the three scrapers return, in the order they are asked\<close>
  "run_agent w limits dry scraped db0 =
     (let summary0 = \<lparr>jobs_found = 0, jobs_new = 0, jobs_with_email = 0, jobs_no_email = 0,
                       applications_sent = 0, applications_failed = 0, dry_run = dry\<rparr>;
          apps_today = get_applications_today (today_start w) db0;
          remaining_today = max_applications_per_day limits - apps_today
      in
      if remaining_today \<le> 0 then
        \<lparr>summary = summary0, run_store = db0, deliveries = [], applied_count = 0, raised = False\<rparr>
      else
        let max_this_run = min (max_applications_per_run limits) remaining_today;
            all_jobs = scraped;
            summary1 = summary0\<lparr>jobs_found := int (length all_jobs)\<rparr>;
            (new_with_email, new_no_email, db1) = filter_new all_jobs db0 [] [];
            summary2 = summary1\<lparr>jobs_new := int (length new_with_email) + int (length new_no_email),
                                 jobs_with_email := int (length new_with_email),
                                 jobs_no_email := int (length new_no_email)\<rparr>;
            st = \<lparr>summary = summary2, run_store = db1, deliveries = [], applied_count = 0, raised = False\<rparr>
        in
        if new_with_email = [] then st
        else
          let contacted = get_contacted_companies db1;
              best_jobs = pick_best_per_company (map JobObj new_with_email) contacted
          in
          if best_jobs = [] then st
          else apply_loop w dry max_this_run (jobs_of best_jobs) st)"

fun dedup_drafts :: "draft_row list \<Rightarrow> string set \<Rightarrow> string set \<Rightarrow> draft_row list \<Rightarrow> draft_row list" where
  "dedup_drafts [] seen_companies already_sent unique_drafts = unique_drafts"
| "dedup_drafts (draft # rest) seen_companies already_sent unique_drafts =
     (let ckey = lower (strip (d_company draft)) in
      if ckey \<in> seen_companies \<or> ckey \<in> already_sent
      then dedup_drafts rest seen_companies already_sent unique_drafts
      else dedup_drafts rest (insert ckey seen_companies) already_sent (unique_drafts @ [draft]))"

definition application_of_draft :: "draft_row \<Rightarrow> JobSource \<Rightarrow> string \<Rightarrow> Application" where
  "application_of_draft draft src now = \<lparr>app_job_title = d_job_title draft,
     app_company = d_company draft, app_recipient_email = d_recipient_email draft,
     app_subject = d_subject draft, app_body = d_body draft, app_source = src,
     app_source_url = d_source_url draft, app_sent_at = now, app_status = ''sent''\<rparr>"

fun send_drafts_loop :: "world \<Rightarrow> bool \<Rightarrow> int \<Rightarrow> draft_row list
    \<Rightarrow> (draft_row, drafts_summary) run \<Rightarrow> (draft_row, drafts_summary) run" where
  "send_drafts_loop w dry max_this_run [] st = st"
| "send_drafts_loop w dry max_this_run (draft # rest) st =
     (if applied_count st \<ge> max_this_run then st
      else if dry then
        send_drafts_loop w dry max_this_run rest
          (st\<lparr>applied_count := applied_count st + 1,
              summary := (summary st)\<lparr>sd_applications_sent := sd_applications_sent (summary st) + 1\<rparr>\<rparr>)
      else
        let n = length (deliveries st);
            success = send_application_email w n (d_recipient_email draft) (d_subject draft) (d_body draft)
        in
        if success then
          (case JobSource_of (d_source draft) of
             None \<Rightarrow> st\<lparr>deliveries := deliveries st @ [(draft, True)], raised := True\<rparr>
           | Some src \<Rightarrow>
               send_drafts_loop w dry max_this_run rest
                 (st\<lparr>run_store := snd (update_draft_status (d_id draft) ''sent''
                                 (log_application (application_of_draft draft src (utcnow w n)) (run_store st))),
                     deliveries := deliveries st @ [(draft, True)],
                     applied_count := applied_count st + 1,
                     summary := (summary st)\<lparr>sd_applications_sent := sd_applications_sent (summary st) + 1\<rparr>\<rparr>))
        else
          send_drafts_loop w dry max_this_run rest
            (st\<lparr>deliveries := deliveries st @ [(draft, False)],
                summary := (summary st)\<lparr>sd_applications_failed := sd_applications_failed (summary st) + 1\<rparr>\<rparr>))"

definition send_approved_drafts :: "world \<Rightarrow> LimitsConfig \<Rightarrow> bool \<Rightarrow> bool \<Rightarrow> store
    \<Rightarrow> (draft_row, drafts_summary) run" where
  "send_approved_drafts w limits send_all dry db0 =
     (let summary0 = \<lparr>drafts_found = 0, sd_applications_sent = 0, sd_applications_failed = 0,
                       sd_dry_run = dry\<rparr>;
          st0 = \<lparr>summary = summary0, run_store = db0, deliveries = [], applied_count = 0, raised = False\<rparr>;
          apps_today = get_applications_today (today_start w) db0;
          remaining_today = max_applications_per_day limits - apps_today
      in
      if remaining_today \<le> 0 then st0
      else
        let max_this_run = min (max_applications_per_run limits) remaining_today;
            drafts = get_drafts (Some ''approved'') db0
                     @ (if send_all then get_drafts (Some ''pending'') db0 else []);
            st1 = st0\<lparr>summary := summary0\<lparr>drafts_found := int (length drafts)\<rparr>\<rparr>
        in
        if drafts = [] then st1
        else
          let already_sent = get_sent_companies db0;
              unique_drafts = dedup_drafts drafts {} already_sent [];
              st2 = st0\<lparr>summary := summary0\<lparr>drafts_found := int (length unique_drafts)\<rparr>\<rparr>
          in
          if unique_drafts = [] then st2
          else send_drafts_loop w dry max_this_run unique_drafts st2)"

text \<open>
  What the selection promises about an entry \<open>c\<close> of its result: \<open>c\<close> occurs in the
  input, every earlier job of the same company scores strictly less and every later one
  scores at most as much. So \<open>c\<close> has the highest score of its company, and is the first
  job encountered with that score.
\<close>

definition first_best :: "candidate list \<Rightarrow> candidate \<Rightarrow> bool" where
  "first_best jobs c \<longleftrightarrow>
     (\<exists>pre post. jobs = pre @ c # post \<and>
        (\<forall>x\<in>set pre. company_key x = company_key c \<longrightarrow> cand_score x < cand_score c) \<and>
        (\<forall>x\<in>set post. company_key x = company_key c \<longrightarrow> cand_score x \<le> cand_score c))"

text \<open>The loop invariant of \<^const>\<open>pick_loop\<close>, over the jobs \<open>seen\<close> so far.\<close>

definition pick_inv :: "string set \<Rightarrow> candidate list \<Rightarrow> (string \<times> candidate \<times> int) list \<Rightarrow> bool" where
  "pick_inv contacted seen acc \<longleftrightarrow>
     distinct (map fst acc) \<and>
     (\<forall>k c s. map_of acc k = Some (c, s) \<longrightarrow>
        k = company_key c \<and> s = cand_score c \<and> k \<notin> contacted \<and> first_best seen c) \<and>
     (\<forall>x\<in>set seen. company_key x \<notin> contacted \<longrightarrow> map_of acc (company_key x) \<noteq> None)"

text \<open>A store whose only draft has been sent.\<close>

definition sent_draft :: draft_row where
  "sent_draft = \<lparr>d_id = 1, d_job_unique_key = ''linkedin:42'', d_job_title = ''Backend Engineer'',
     d_company = ''Acme'', d_location = ''Remote'', d_recipient_email = ''jobs@acme.io'',
     d_subject = ''Application'', d_body = ''Hello'', d_source = ''linkedin'',
     d_source_url = [], d_created_at = ''2024-01-01T00:00:00'', d_status = ''sent''\<rparr>"

definition store_with_sent :: store where
  "store_with_sent = empty_store\<lparr>drafts := [sent_draft]\<rparr>"

text \<open>A second sighting of the Acme backend posting: same key, found later, with a
  contact address this time.\<close>

definition acme_backend_again :: Job where
  "acme_backend_again =
     acme_backend\<lparr>application_email := ''jobs@acme.io'', discovered_at := ''2024-02-01T00:00:00''\<rparr>"

text \<open>
  A store with five seen postings: two are pending, one has no contact address, one has
  an application with its title and employer, one has a draft.
\<close>

definition posting :: "string \<Rightarrow> string \<Rightarrow> string \<Rightarrow> string \<Rightarrow> Job" where
  "posting t c email found = (new_Job t c LINKEDIN found)\<lparr>application_email := email\<rparr>"

definition pending_example :: store where
  "pending_example =
     \<lparr>seen_jobs = map seen_row_of
        [posting ''Backend Engineer'' ''Acme'' ''jobs@acme.io'' ''2024-01-02T09:00:00'',
         posting ''Data Engineer'' ''Bolt'' [] ''2024-01-05T09:00:00'',
         posting ''Web Developer'' ''Cargo'' ''hr@cargo.io'' ''2024-01-06T09:00:00'',
         posting ''Node Developer'' ''Delta'' ''hr@delta.io'' ''2024-01-07T09:00:00'',
         posting ''React Developer'' ''Echo'' ''careers@echo.io'' ''2024-01-03T09:00:00''],
      applications =
        [application_row_of (application_of_job
           (posting ''Web Developer'' ''Cargo'' ''hr@cargo.io'' ''2024-01-06T09:00:00'')
           ''Application'' ''Hello'' ''2024-01-06T10:00:00'')],
      drafts =
        [\<lparr>d_id = 1,
          d_job_unique_key = unique_key (posting ''Node Developer'' ''Delta'' ''hr@delta.io'' ''2024-01-07T09:00:00''),
          d_job_title = ''Node Developer'', d_company = ''Delta'', d_location = [],
          d_recipient_email = ''hr@delta.io'', d_subject = ''Application'', d_body = ''Hello'',
          d_source = ''linkedin'', d_source_url = [], d_created_at = ''2024-01-07T10:00:00'',
          d_status = ''discarded''\<rparr>]\<rparr>"

text \<open>The description of the running example, and a page and a network that offer
  other addresses.\<close>

definition acme_description :: string where
  "acme_description = ''Email your resume to jobs@acme.io or noreply@acme.io''"

definition bolt_page :: soup where
  "bolt_page = \<lparr>a_tags = [(''mailto:hr@bolt.dev'', ''Mail us''), (''https://bolt.dev'', ''Our website'')],
     page_text = ''Write to talent@bolt.dev'', desc_div_hrefs = Some [''https://bolt.dev/about'']\<rparr>"

definition bolt_web :: web where
  "bolt_web = \<lparr>requests_get = (\<lambda>fetched url. Some bolt_page),
     urlparse = (\<lambda>url. (''https'', ''www.bolt.dev'')),
     set_order = (\<lambda>emails. emails)\<rparr>"

text \<open>
  A day on which three applications have been sent, a batch of four new postings of four
  employers, and collaborators whose first delivery of a run fails and whose later ones
  succeed.
\<close>

definition sent_today :: "string \<Rightarrow> application_row" where
  "sent_today employer = \<lparr>a_job_title = ''Engineer'', a_company = employer,
     a_recipient_email = ''hr@example.org'', a_subject = ''Application'', a_body = ''Hello'',
     a_source = ''linkedin'', a_source_url = [], a_sent_at = ''2024-03-01T08:00:00'',
     a_status = ''sent''\<rparr>"

definition busy_store :: store where
  "busy_store = empty_store\<lparr>applications := [sent_today ''Xeno'', sent_today ''Yarn'', sent_today ''Zeta'']\<rparr>"

definition four_postings :: "Job list" where
  "four_postings =
     [posting ''Backend Engineer'' ''Acme'' ''jobs@acme.io'' ''2024-03-01T09:00:00'',
      posting ''Web Developer'' ''Bolt'' ''hr@bolt.dev'' ''2024-03-01T09:00:00'',
      posting ''Node Developer'' ''Cargo'' ''hr@cargo.io'' ''2024-03-01T09:00:00'',
      posting ''React Developer'' ''Delta'' ''hr@delta.io'' ''2024-03-01T09:00:00'']"

definition flaky_world :: world where
  "flaky_world = \<lparr>today_start = ''2024-03-01T00:00:00'',
     generate_application_email = (\<lambda>job. (''Application: '' @ title job, ''Hello '' @ company job)),
     send_application_email = (\<lambda>n to_email subject body. n \<noteq> 0),
     utcnow = (\<lambda>n. ''2024-03-01T12:00:00'')\<rparr>"

text \<open>
  The invariant of the loop of \<open>send_approved_drafts\<close>, over the drafts \<open>js\<close> still to
  handle, for a run that started on the list \<open>ds\<close> with the drafts table \<open>D0\<close> and the
  applications table \<open>A0\<close>: the deliveries logged are those of the drafts handled, in
  their order; the ids of the drafts table are unchanged; a row of the table is as it was
  unless a draft of its id was delivered; the applications table has grown at its end, by
  rows of employers of delivered drafts.
\<close>

definition drafts_inv :: "bool \<Rightarrow> draft_row list \<Rightarrow> draft_row list \<Rightarrow> application_row list
    \<Rightarrow> draft_row list \<Rightarrow> (draft_row, drafts_summary) run \<Rightarrow> bool" where
  "drafts_inv dry ds D0 A0 js s \<longleftrightarrow>
     (if dry then deliveries s = [] else map fst (deliveries s) @ js = ds)
     \<and> map d_id (drafts (run_store s)) = map d_id D0
     \<and> (\<forall>x\<in>set D0. x \<in> set (drafts (run_store s))
            \<or> (\<exists>d. (d, True) \<in> set (deliveries s) \<and> d_id d = d_id x))
     \<and> (\<exists>new. applications (run_store s) = A0 @ new
            \<and> (\<forall>a\<in>set new. \<exists>d. (d, True) \<in> set (deliveries s) \<and> a_company a = d_company d))"

text \<open>Two approved drafts, for two employers; the later one is sent first.\<close>

definition approved_draft :: "int \<Rightarrow> string \<Rightarrow> string \<Rightarrow> draft_row" where
  "approved_draft i employer created = \<lparr>d_id = i, d_job_unique_key = ''linkedin:engineer:'' @ lower employer,
     d_job_title = ''Engineer'', d_company = employer, d_location = [],
     d_recipient_email = ''hr@example.org'', d_subject = ''Application'', d_body = ''Hello'',
     d_source = ''linkedin'', d_source_url = [], d_created_at = created, d_status = ''approved''\<rparr>"

definition two_drafts_store :: store where
  "two_drafts_store = empty_store\<lparr>drafts :=
     [approved_draft 1 ''Acme'' ''2024-03-01T09:00:00'', approved_draft 2 ''Bolt'' ''2024-03-01T10:00:00'']\<rparr>"

section \<open>Verification: scoring\<close>

lemma lower_append: "lower (a @ b) = lower a @ lower b"
  by (simp add: lower_def)

lemma js_keywords_lower: "kw \<in> set js_keywords \<Longrightarrow> lower kw = kw"
proof -
  have "list_all (\<lambda>kw. lower kw = kw) js_keywords" by code_simp
  then show "kw \<in> set js_keywords \<Longrightarrow> lower kw = kw" by (simp add: list_all_iff)
qed

lemma sublist_in_left: "sublist xs ys \<Longrightarrow> sublist xs (ys @ zs)"
  by (simp add: sublist_append)

lemma sublist_in_right: "sublist xs zs \<Longrightarrow> sublist xs (ys @ zs)"
  by (simp add: sublist_append)

lemma any_in_append: "any_in ks t \<Longrightarrow> any_in ks (t @ u)"
  unfolding any_in_def list_ex_iff using sublist_in_left by blast

lemma any_in_member: "kw \<in> set ks \<Longrightarrow> sublist kw t \<Longrightarrow> any_in ks t"
  by (auto simp: any_in_def list_ex_iff)

lemma react_in_react_native: "sublist ''react native'' t \<Longrightarrow> any_in js_keywords t"
proof -
  assume a: "sublist ''react native'' t"
  have "sublist ''react'' ''react native''" by code_simp
  then have "sublist ''react'' t" using a by (rule sublist_order.order_trans)
  moreover have "''react'' \<in> set js_keywords" by (simp add: js_keywords_def)
  ultimately show ?thesis by (rule any_in_member[rotated])
qed

lemma score_unfold:
  "job_priority_score job =
     (if any_in js_keywords (lower (title job) @ '' '' @ lower (description job)) then 100 else 0)
     + (if any_in [''full stack'', ''fullstack'', ''full-stack''] (lower (title job)) then 50
        else if any_in [''frontend'', ''front-end'', ''front end''] (lower (title job)) then 30
        else if any_in [''backend'', ''back-end'', ''back end''] (lower (title job)) then 20
        else 0)
     + (if sublist ''react native'' (lower (title job) @ '' '' @ lower (description job)) then 40 else 0)"
  by (simp add: job_priority_score_def Let_def)

text \<open>
  Claim C8, as amended. For the batch of the two Acme postings (no description) and no
  excluded employer, the selection returns only the Full Stack Engineer posting. Their
  scores are 50 and 20: the title holds a full-stack keyword, respectively a backend
  keyword, and neither text holds a JS/TS keyword, so the 100 points of the language
  preference are not given.
\<close>

theorem scenario_b_selection:
  "pick_best_per_company [JobObj acme_full_stack, JobObj acme_backend] {} = [JobObj acme_full_stack]
   \<and> job_priority_score acme_full_stack = 50
   \<and> job_priority_score acme_backend = 20"
proof -
  have 1: "pick_best_per_company [JobObj acme_full_stack, JobObj acme_backend] {}
      = [JobObj acme_full_stack]"
    by code_simp
  have 2: "job_priority_score acme_full_stack = 50" by code_simp
  have 3: "job_priority_score acme_backend = 20" by code_simp
  from 1 2 3 show ?thesis by blast
qed

text \<open>
  Claim C8 as stated gives the Full Stack Engineer posting the score 150; the code gives
  it 50.
\<close>

theorem scenario_b_score_counterexample:
  "job_priority_score acme_full_stack \<noteq> 150"
  by code_simp

text \<open>
  Claim C9, as amended. Appending a JS/TS keyword to the title, directly or after a
  separator \<open>sep\<close> such as a space, never decreases the score as long as the text searched
  for \<open>react native\<close> (lowercased title, a space, lowercased description) does not lose
  its match; it decreases the score by at most 40 in any case.
\<close>

theorem score_keyword_addition:
  assumes kw: "kw \<in> set js_keywords"
  shows "((sublist ''react native'' (lower (title job) @ '' '' @ lower (description job)) \<longrightarrow>
           sublist ''react native'' (lower (title job @ sep @ kw) @ '' '' @ lower (description job)))
          \<longrightarrow> job_priority_score job \<le> job_priority_score (job\<lparr>title := title job @ sep @ kw\<rparr>))
       \<and> job_priority_score job \<le> job_priority_score (job\<lparr>title := title job @ sep @ kw\<rparr>) + 40"
proof -
  define t where "t = lower (title job)"
  define d where "d = lower (description job)"
  define u where "u = lower sep @ kw"
  have t': "lower (title job @ sep @ kw) = t @ u"
    using kw by (simp add: lower_append js_keywords_lower t_def u_def)
  have js': "any_in js_keywords ((t @ u) @ '' '' @ d)"
  proof (rule any_in_member[OF kw])
    have "sublist kw ((t @ lower sep) @ kw)" by (rule sublist_append_leftI)
    then have "sublist kw (t @ u)" by (simp add: u_def)
    then show "sublist kw ((t @ u) @ '' '' @ d)" by (rule sublist_in_left)
  qed
  have role: "\<And>ks. any_in ks t \<Longrightarrow> any_in ks (t @ u)" by (rule any_in_append)
  have rnjs: "sublist ''react native'' (t @ '' '' @ d) \<Longrightarrow> any_in js_keywords (t @ '' '' @ d)"
    by (rule react_in_react_native)
  show ?thesis
    unfolding score_unfold
    using js' role rnjs
    by (simp add: t' t_def[symmetric] d_def[symmetric])
qed

theorem score_keyword_addition_witness:
  "''typescript'' \<in> set js_keywords
   \<and> sublist ''react native''
        (lower (title (new_Job ''React Native Developer'' ''Acme'' LINKEDIN []) @ '' '' @ ''typescript'')
          @ '' '' @ lower (description (new_Job ''React Native Developer'' ''Acme'' LINKEDIN [])))
   \<and> job_priority_score (new_Job ''React Native Developer'' ''Acme'' LINKEDIN [])
       \<le> job_priority_score ((new_Job ''React Native Developer'' ''Acme'' LINKEDIN [])
            \<lparr>title := title (new_Job ''React Native Developer'' ''Acme'' LINKEDIN []) @ '' '' @ ''typescript''\<rparr>)"
proof -
  have k: "''typescript'' \<in> set js_keywords" by (simp add: js_keywords_def)
  have r: "sublist ''react native''
        (lower (title (new_Job ''React Native Developer'' ''Acme'' LINKEDIN []) @ '' '' @ ''typescript'')
          @ '' '' @ lower (description (new_Job ''React Native Developer'' ''Acme'' LINKEDIN [])))"
    by code_simp
  from score_keyword_addition[OF k, of "new_Job ''React Native Developer'' ''Acme'' LINKEDIN []" "'' ''"] r k
  show ?thesis by blast
qed

text \<open>
  Claim C9 as stated fails: with the title \<open>react\<close> and the description \<open>native\<close> the
  searched text is \<open>react native\<close>; after \<open>javascript\<close> is appended to the title it is
  \<open>reactjavascript native\<close> (or \<open>react javascript native\<close>, with a space before the
  keyword), and the score falls from 140 to 100.
\<close>

theorem score_keyword_addition_counterexample:
  "''javascript'' \<in> set js_keywords
   \<and> job_priority_score react_then_native = 140
   \<and> job_priority_score (react_then_native\<lparr>title := title react_then_native @ ''javascript''\<rparr>) = 100
   \<and> job_priority_score (react_then_native\<lparr>title := title react_then_native @ '' javascript''\<rparr>) = 100"
proof -
  have 1: "''javascript'' \<in> set js_keywords" by (simp add: js_keywords_def)
  have 2: "job_priority_score react_then_native = 140" by code_simp
  have 3: "job_priority_score (react_then_native\<lparr>title := title react_then_native @ ''javascript''\<rparr>) = 100"
    by code_simp
  have 4: "job_priority_score (react_then_native\<lparr>title := title react_then_native @ '' javascript''\<rparr>) = 100"
    by code_simp
  from 1 2 3 4 show ?thesis by blast
qed

section \<open>Verification: one job per company\<close>

lemma first_best_snoc_other:
  assumes "first_best seen c" "company_key job \<noteq> company_key c \<or> cand_score job \<le> cand_score c"
  shows "first_best (seen @ [job]) c"
proof -
  from assms(1) obtain pre post where
    s: "seen = pre @ c # post" and
    p1: "\<forall>x\<in>set pre. company_key x = company_key c \<longrightarrow> cand_score x < cand_score c" and
    p2: "\<forall>x\<in>set post. company_key x = company_key c \<longrightarrow> cand_score x \<le> cand_score c"
    unfolding first_best_def by blast
  have "seen @ [job] = pre @ c # (post @ [job])" using s by simp
  moreover have "\<forall>x\<in>set (post @ [job]). company_key x = company_key c \<longrightarrow> cand_score x \<le> cand_score c"
    using p2 assms(2) by auto
  ultimately show ?thesis unfolding first_best_def using p1 by blast
qed

lemma first_best_snoc_new:
  assumes "\<forall>x\<in>set seen. company_key x = company_key job \<longrightarrow> cand_score x < cand_score job"
  shows "first_best (seen @ [job]) job"
  unfolding first_best_def
  by (rule exI[of _ seen], rule exI[of _ "[]"]) (use assms in simp)

lemma first_best_all_le:
  assumes "first_best seen c" "x \<in> set seen" "company_key x = company_key c"
  shows "cand_score x \<le> cand_score c"
proof -
  from assms(1) obtain pre post where
    s: "seen = pre @ c # post" and
    p1: "\<forall>x\<in>set pre. company_key x = company_key c \<longrightarrow> cand_score x < cand_score c" and
    p2: "\<forall>x\<in>set post. company_key x = company_key c \<longrightarrow> cand_score x \<le> cand_score c"
    unfolding first_best_def by blast
  from assms(2) s have "x \<in> set pre \<or> x = c \<or> x \<in> set post" by auto
  then show ?thesis using p1 p2 assms(3) by force
qed

lemma pick_inv_D:
  assumes "pick_inv contacted seen acc"
  shows "distinct (map fst acc)"
    and "\<And>k c s. map_of acc k = Some (c, s) \<Longrightarrow>
        k = company_key c \<and> s = cand_score c \<and> k \<notin> contacted \<and> first_best seen c"
    and "\<And>x. x \<in> set seen \<Longrightarrow> company_key x \<notin> contacted \<Longrightarrow> map_of acc (company_key x) \<noteq> None"
  using assms unfolding pick_inv_def by blast+

lemma pick_inv_I:
  assumes "distinct (map fst acc)"
    and "\<And>k c s. map_of acc k = Some (c, s) \<Longrightarrow>
        k = company_key c \<and> s = cand_score c \<and> k \<notin> contacted \<and> first_best seen c"
    and "\<And>x. x \<in> set seen \<Longrightarrow> company_key x \<notin> contacted \<Longrightarrow> map_of acc (company_key x) \<noteq> None"
  shows "pick_inv contacted seen acc"
  using assms unfolding pick_inv_def by blast

lemma pick_inv_keep:
  assumes inv: "pick_inv contacted seen acc"
    and other: "company_key job \<in> contacted \<or>
       (\<exists>c0. map_of acc (company_key job) = Some (c0, cand_score c0) \<and> cand_score job \<le> cand_score c0)"
  shows "pick_inv contacted (seen @ [job]) acc"
proof (rule pick_inv_I)
  show "distinct (map fst acc)" using inv by (rule pick_inv_D)
next
  fix k c s assume m: "map_of acc k = Some (c, s)"
  from pick_inv_D(2)[OF inv m]
  have kc: "k = company_key c" and sc: "s = cand_score c" and kn: "k \<notin> contacted"
    and fb: "first_best seen c" by blast+
  have "company_key job \<noteq> company_key c \<or> cand_score job \<le> cand_score c"
    using other kc kn m by auto
  with fb have "first_best (seen @ [job]) c" by (rule first_best_snoc_other)
  with kc sc kn show "k = company_key c \<and> s = cand_score c \<and> k \<notin> contacted \<and> first_best (seen @ [job]) c"
    by blast
next
  fix x assume "x \<in> set (seen @ [job])" "company_key x \<notin> contacted"
  then show "map_of acc (company_key x) \<noteq> None"
    using pick_inv_D(3)[OF inv, of x] other by auto
qed

lemma pick_inv_update:
  assumes inv: "pick_inv contacted seen acc"
    and nc: "company_key job \<notin> contacted"
    and new: "\<forall>x\<in>set seen. company_key x = company_key job \<longrightarrow> cand_score x < cand_score job"
  shows "pick_inv contacted (seen @ [job]) (AList.update (company_key job) (job, cand_score job) acc)"
proof (rule pick_inv_I)
  show "distinct (map fst (AList.update (company_key job) (job, cand_score job) acc))"
    using pick_inv_D(1)[OF inv] by (rule distinct_update)
next
  fix k c s
  assume m: "map_of (AList.update (company_key job) (job, cand_score job) acc) k = Some (c, s)"
  show "k = company_key c \<and> s = cand_score c \<and> k \<notin> contacted \<and> first_best (seen @ [job]) c"
  proof (cases "k = company_key job")
    case True
    with m have "c = job" "s = cand_score job" by (auto simp: update_conv')
    moreover have "first_best (seen @ [job]) job" using new by (rule first_best_snoc_new)
    ultimately show ?thesis using True nc by blast
  next
    case False
    with m have m': "map_of acc k = Some (c, s)" by (simp add: update_conv')
    from pick_inv_D(2)[OF inv m']
    have kc: "k = company_key c" and sc: "s = cand_score c" and kn: "k \<notin> contacted"
      and fb: "first_best seen c" by blast+
    from False kc have "company_key job \<noteq> company_key c \<or> cand_score job \<le> cand_score c" by simp
    with fb have "first_best (seen @ [job]) c" by (rule first_best_snoc_other)
    with kc sc kn show ?thesis by blast
  qed
next
  fix x assume "x \<in> set (seen @ [job])" "company_key x \<notin> contacted"
  then show "map_of (AList.update (company_key job) (job, cand_score job) acc) (company_key x) \<noteq> None"
    using pick_inv_D(3)[OF inv, of x] by (auto simp: update_conv')
qed

lemma pick_inv_step:
  assumes inv: "pick_inv contacted seen acc"
  shows "pick_inv contacted (seen @ [job])
     (if company_key job \<in> contacted then acc
      else if (case map_of acc (company_key job) of None \<Rightarrow> True | Some entry \<Rightarrow> cand_score job > snd entry)
        then AList.update (company_key job) (job, cand_score job) acc
      else acc)"
proof (cases "company_key job \<in> contacted")
  case True
  then show ?thesis using pick_inv_keep[OF inv, of job] by simp
next
  case nc: False
  show ?thesis
  proof (cases "map_of acc (company_key job)")
    case None
    have "\<forall>x\<in>set seen. company_key x = company_key job \<longrightarrow> cand_score x < cand_score job"
      using pick_inv_D(3)[OF inv] nc None by force
    from pick_inv_update[OF inv nc this] nc None show ?thesis by simp
  next
    case (Some entry)
    obtain c0 s0 where entry: "entry = (c0, s0)" by (cases entry)
    from pick_inv_D(2)[of contacted seen acc "company_key job" c0 s0] inv Some entry
    have k0: "company_key job = company_key c0" and s0: "s0 = cand_score c0"
      and fb0: "first_best seen c0" by simp_all
    show ?thesis
    proof (cases "cand_score job > s0")
      case gt: True
      have "\<forall>x\<in>set seen. company_key x = company_key job \<longrightarrow> cand_score x < cand_score job"
      proof (intro ballI impI)
        fix x assume "x \<in> set seen" "company_key x = company_key job"
        with first_best_all_le[OF fb0, of x] k0 have "cand_score x \<le> s0" by (simp add: s0)
        with gt show "cand_score x < cand_score job" by simp
      qed
      from pick_inv_update[OF inv nc this] nc Some entry gt show ?thesis by simp
    next
      case le: False
      have "map_of acc (company_key job) = Some (c0, cand_score c0) \<and> cand_score job \<le> cand_score c0"
        using Some entry s0 le by simp
      then have "pick_inv contacted (seen @ [job]) acc"
        using pick_inv_keep[OF inv, of job] by blast
      with nc Some entry le show ?thesis by simp
    qed
  qed
qed

lemma pick_loop_Cons:
  "pick_loop (job # jobs) contacted acc =
     pick_loop jobs contacted (if company_key job \<in> contacted then acc
      else if (case map_of acc (company_key job) of None \<Rightarrow> True | Some entry \<Rightarrow> cand_score job > snd entry)
        then AList.update (company_key job) (job, cand_score job) acc
      else acc)"
  by (simp add: Let_def)

lemma pick_loop_inv:
  "pick_inv contacted seen acc \<Longrightarrow> pick_inv contacted (seen @ jobs) (pick_loop jobs contacted acc)"
proof (induction jobs arbitrary: seen acc)
  case Nil
  then show ?case by simp
next
  case (Cons job jobs)
  from pick_inv_step[OF Cons.prems, of job]
  have "pick_inv contacted ((seen @ [job]) @ jobs)
     (pick_loop jobs contacted (if company_key job \<in> contacted then acc
      else if (case map_of acc (company_key job) of None \<Rightarrow> True | Some entry \<Rightarrow> cand_score job > snd entry)
        then AList.update (company_key job) (job, cand_score job) acc
      else acc))"
    by (rule Cons.IH)
  then show ?case unfolding pick_loop_Cons by simp
qed

lemma pick_inv_empty: "pick_inv contacted [] []"
  by (simp add: pick_inv_def)

text \<open>
  Claim C4. Whatever the input list and the excluded set: no two entries of the result
  share an employer key (company name, trimmed and lowercased); no entry's key is
  excluded; every entry is the highest-scoring job of its employer in the input, the first
  one encountered with that score; and every employer of the input that is not excluded
  has its entry.
\<close>

theorem pick_best_per_company_correct:
  "distinct (map company_key (pick_best_per_company jobs contacted)) \<and>
   (\<forall>c\<in>set (pick_best_per_company jobs contacted).
       company_key c \<notin> contacted \<and> first_best jobs c) \<and>
   (\<forall>x\<in>set jobs. company_key x \<notin> contacted \<longrightarrow>
       company_key x \<in> company_key ` set (pick_best_per_company jobs contacted))"
proof -
  define acc where "acc = pick_loop jobs contacted []"
  have inv: "pick_inv contacted jobs acc"
    using pick_loop_inv[OF pick_inv_empty, of contacted jobs] by (simp add: acc_def)
  then have d: "distinct (map fst acc)" by (simp add: pick_inv_def)
  have ent: "\<And>k c s. (k, c, s) \<in> set acc \<Longrightarrow>
      k = company_key c \<and> s = cand_score c \<and> k \<notin> contacted \<and> first_best jobs c"
  proof -
    fix k c s assume "(k, c, s) \<in> set acc"
    with d have "map_of acc k = Some (c, s)" by simp
    with inv show "k = company_key c \<and> s = cand_score c \<and> k \<notin> contacted \<and> first_best jobs c"
      unfolding pick_inv_def by blast
  qed
  have res: "pick_best_per_company jobs contacted = map (\<lambda>entry. fst (snd entry)) acc"
    by (simp add: pick_best_per_company_def acc_def)
  have keys: "map company_key (map (\<lambda>entry. fst (snd entry)) acc) = map fst acc"
    using ent by (auto simp: map_eq_conv)
  have 1: "distinct (map company_key (pick_best_per_company jobs contacted))"
    unfolding res keys by (rule d)
  have 2: "\<forall>c\<in>set (pick_best_per_company jobs contacted). company_key c \<notin> contacted \<and> first_best jobs c"
    using ent unfolding res by fastforce
  have 3: "\<forall>x\<in>set jobs. company_key x \<notin> contacted \<longrightarrow>
       company_key x \<in> company_key ` set (pick_best_per_company jobs contacted)"
  proof (intro ballI impI)
    fix x assume "x \<in> set jobs" "company_key x \<notin> contacted"
    with inv obtain c s where m: "map_of acc (company_key x) = Some (c, s)"
      unfolding pick_inv_def by fastforce
    then have mem: "(company_key x, c, s) \<in> set acc" by (rule map_of_SomeD)
    from ent[OF mem] have "company_key x = company_key c" by simp
    moreover from mem have "c \<in> set (pick_best_per_company jobs contacted)"
      unfolding res by force
    ultimately show "company_key x \<in> company_key ` set (pick_best_per_company jobs contacted)"
      by blast
  qed
  from 1 2 3 show ?thesis by blast
qed

theorem pick_best_per_company_correct_witness:
  "JobObj acme_full_stack \<in> set (pick_best_per_company [JobObj acme_backend, JobObj acme_full_stack] {})
   \<and> JobObj acme_backend \<in> set [JobObj acme_backend, JobObj acme_full_stack]
   \<and> company_key (JobObj acme_backend) \<notin> {}
   \<and> first_best [JobObj acme_backend, JobObj acme_full_stack] (JobObj acme_full_stack)
   \<and> company_key (JobObj acme_backend)
        \<in> company_key ` set (pick_best_per_company [JobObj acme_backend, JobObj acme_full_stack] {})"
proof -
  have m: "JobObj acme_full_stack
      \<in> set (pick_best_per_company [JobObj acme_backend, JobObj acme_full_stack] {})"
    by code_simp
  have n: "JobObj acme_backend \<in> set [JobObj acme_backend, JobObj acme_full_stack]" by simp
  from pick_best_per_company_correct[of "[JobObj acme_backend, JobObj acme_full_stack]" "{}"] m n
  show ?thesis by blast
qed

section \<open>Verification: draft status\<close>






lemma cmd_echo_then [simp]:
  "cmd_store (echo_then line r) = cmd_store r"
  "cmd_output (echo_then line r) = line # cmd_output r"
  "cmd_raised (echo_then line r) = cmd_raised r"
  by (simp_all add: echo_then_def)







text \<open>
  An id that does not bind stops the command: nothing is printed for it or for the ids
  after it, and the store is as the earlier ids left it.
\<close>

lemma approve_overflow_example:
  "approve_drafts_cmd [9223372036854775808, 1] store_with_sent
     = \<lparr>cmd_store = store_with_sent, cmd_output = [], cmd_raised = Some OverflowError\<rparr>
   \<and> approve_drafts_cmd [7, 9223372036854775808, 1] store_with_sent
     = \<lparr>cmd_store = store_with_sent, cmd_output = [Not_found 7], cmd_raised = Some OverflowError\<rparr>"
  by (simp add: sqlite_integer_def get_draft_by_id_def store_with_sent_def empty_store_def
        sent_draft_def echo_then_def)




section \<open>Verification: seen jobs\<close>

lemma is_job_seen_iff:
  "is_job_seen job db \<longleftrightarrow> unique_key job \<in> set (map s_unique_key (seen_jobs db))"
  by (force simp: is_job_seen_def list_ex_iff)

lemma mark_job_seen_store:
  "snd (mark_job_seen job db) =
     (if is_job_seen job db then db else db\<lparr>seen_jobs := seen_jobs db @ [seen_row_of job]\<rparr>)"
  by (simp add: mark_job_seen_def is_job_seen_def)

lemma seen_after_mark: "is_job_seen job (snd (mark_job_seen job db))"
  by (simp add: mark_job_seen_store is_job_seen_iff seen_row_of_def)

lemma seen_same_key:
  "unique_key j = unique_key job \<Longrightarrow> is_job_seen j db = is_job_seen job db"
  by (simp add: is_job_seen_iff)

lemma mark_keeps_distinct:
  "distinct (map s_unique_key (seen_jobs db)) \<Longrightarrow>
     distinct (map s_unique_key (seen_jobs (snd (mark_job_seen job db))))"
  by (auto simp: mark_job_seen_store is_job_seen_iff seen_row_of_def)

lemma filter_new_all_seen:
  "\<forall>j\<in>set js. is_job_seen j db \<Longrightarrow> filter_new js db we ne = (we, ne, db)"
  by (induction js) auto

lemma fold_mark_all_seen:
  "\<forall>j\<in>set js. is_job_seen j db \<Longrightarrow> fold (\<lambda>j d. snd (mark_job_seen j d)) js db = db"
  by (induction js) (auto simp: mark_job_seen_store)

text \<open>
  Claim C2, as amended. \<open>mark_job_seen\<close> returns \<open>None\<close>, not a flag. It leaves the store
  as it is when the key is there and appends one row when it is not, so the key is there
  afterwards and the keys of the table stay distinct. The flag of the claim is what
  \<open>is_job_seen\<close> answers before the call, as the filter loop of \<open>run_agent\<close> asks it: of
  jobs \<open>job, js\<close> that share one key not yet in the store, marking them all leaves the
  store of the first call, and the loop reports \<open>job\<close> alone as new.
\<close>

theorem mark_job_seen_idempotent:
  "fst (mark_job_seen job db) = PyNone
   \<and> (is_job_seen job db \<longrightarrow> snd (mark_job_seen job db) = db)
   \<and> (\<not> is_job_seen job db \<longrightarrow>
        snd (mark_job_seen job db) = db\<lparr>seen_jobs := seen_jobs db @ [seen_row_of job]\<rparr>)
   \<and> is_job_seen job (snd (mark_job_seen job db))
   \<and> (distinct (map s_unique_key (seen_jobs db)) \<longrightarrow>
        distinct (map s_unique_key (seen_jobs (snd (mark_job_seen job db)))))
   \<and> ((\<forall>j\<in>set js. unique_key j = unique_key job) \<longrightarrow>
        fold (\<lambda>j d. snd (mark_job_seen j d)) (job # js) db = snd (mark_job_seen job db))
   \<and> ((\<forall>j\<in>set js. unique_key j = unique_key job) \<and> \<not> is_job_seen job db \<longrightarrow>
        filter_new (job # js) db [] [] =
          (if application_email job \<noteq> [] then ([job], [], snd (mark_job_seen job db))
           else ([], [job], snd (mark_job_seen job db))))"
proof -
  have 1: "fst (mark_job_seen job db) = PyNone" by (simp add: mark_job_seen_def)
  have 2: "is_job_seen job db \<longrightarrow> snd (mark_job_seen job db) = db"
    by (simp add: mark_job_seen_store)
  have 3: "\<not> is_job_seen job db \<longrightarrow>
        snd (mark_job_seen job db) = db\<lparr>seen_jobs := seen_jobs db @ [seen_row_of job]\<rparr>"
    by (simp add: mark_job_seen_store)
  have 4: "is_job_seen job (snd (mark_job_seen job db))" by (rule seen_after_mark)
  have 5: "distinct (map s_unique_key (seen_jobs db)) \<longrightarrow>
        distinct (map s_unique_key (seen_jobs (snd (mark_job_seen job db))))"
    using mark_keeps_distinct by blast
  have all_seen: "(\<forall>j\<in>set js. unique_key j = unique_key job) \<Longrightarrow>
      \<forall>j\<in>set js. is_job_seen j (snd (mark_job_seen job db))"
    using seen_after_mark seen_same_key by blast
  have 6: "(\<forall>j\<in>set js. unique_key j = unique_key job) \<longrightarrow>
        fold (\<lambda>j d. snd (mark_job_seen j d)) (job # js) db = snd (mark_job_seen job db)"
  proof
    assume h: "\<forall>j\<in>set js. unique_key j = unique_key job"
    have "fold (\<lambda>j d. snd (mark_job_seen j d)) js (snd (mark_job_seen job db)) = snd (mark_job_seen job db)"
      using all_seen[OF h] by (rule fold_mark_all_seen)
    then show "fold (\<lambda>j d. snd (mark_job_seen j d)) (job # js) db = snd (mark_job_seen job db)"
      by simp
  qed
  have 7: "(\<forall>j\<in>set js. unique_key j = unique_key job) \<and> \<not> is_job_seen job db \<longrightarrow>
        filter_new (job # js) db [] [] =
          (if application_email job \<noteq> [] then ([job], [], snd (mark_job_seen job db))
           else ([], [job], snd (mark_job_seen job db)))"
  proof
    assume h: "(\<forall>j\<in>set js. unique_key j = unique_key job) \<and> \<not> is_job_seen job db"
    then have s: "\<forall>j\<in>set js. is_job_seen j (snd (mark_job_seen job db))"
      using all_seen by blast
    have r: "\<And>we ne. filter_new js (snd (mark_job_seen job db)) we ne = (we, ne, snd (mark_job_seen job db))"
      using s by (rule filter_new_all_seen)
    from h have n: "\<not> is_job_seen job db" by blast
    show "filter_new (job # js) db [] [] =
          (if application_email job \<noteq> [] then ([job], [], snd (mark_job_seen job db))
           else ([], [job], snd (mark_job_seen job db)))"
      using n by (simp add: r Let_def)
  qed
  from 1 2 3 4 5 6 7 show ?thesis by blast
qed

theorem mark_job_seen_idempotent_witness:
  "\<not> is_job_seen acme_backend empty_store
   \<and> distinct (map s_unique_key (seen_jobs empty_store))
   \<and> unique_key acme_backend_again = unique_key acme_backend
   \<and> seen_jobs (snd (mark_job_seen acme_backend empty_store)) = [seen_row_of acme_backend]
   \<and> is_job_seen acme_backend_again (snd (mark_job_seen acme_backend empty_store))
   \<and> snd (mark_job_seen acme_backend (snd (mark_job_seen acme_backend empty_store)))
       = snd (mark_job_seen acme_backend empty_store)
   \<and> filter_new [acme_backend, acme_backend_again, acme_backend] empty_store [] []
       = ([], [acme_backend], snd (mark_job_seen acme_backend empty_store))"
proof -
  have a: "\<not> is_job_seen acme_backend empty_store" by code_simp
  have b: "distinct (map s_unique_key (seen_jobs empty_store))" by code_simp
  have c: "\<forall>j\<in>set [acme_backend_again, acme_backend]. unique_key j = unique_key acme_backend"
    by code_simp
  have d: "application_email acme_backend = []" by code_simp
  have e: "seen_jobs empty_store = []" by code_simp
  from c have k: "unique_key acme_backend_again = unique_key acme_backend" by simp
  have f: "is_job_seen acme_backend_again (snd (mark_job_seen acme_backend empty_store))"
    unfolding seen_same_key[OF k] by (rule seen_after_mark)
  note t = mark_job_seen_idempotent[of acme_backend empty_store "[acme_backend_again, acme_backend]"]
  note t' = mark_job_seen_idempotent[of acme_backend "snd (mark_job_seen acme_backend empty_store)" "[]"]
  from t a have g0: "snd (mark_job_seen acme_backend empty_store)
      = empty_store\<lparr>seen_jobs := seen_jobs empty_store @ [seen_row_of acme_backend]\<rparr>"
    by blast
  have g: "seen_jobs (snd (mark_job_seen acme_backend empty_store)) = [seen_row_of acme_backend]"
    unfolding g0 by (simp add: e)
  from t' seen_after_mark[of acme_backend empty_store]
  have h: "snd (mark_job_seen acme_backend (snd (mark_job_seen acme_backend empty_store)))
       = snd (mark_job_seen acme_backend empty_store)" by blast
  from t a c have i0: "filter_new [acme_backend, acme_backend_again, acme_backend] empty_store [] [] =
      (if application_email acme_backend \<noteq> [] then ([acme_backend], [], snd (mark_job_seen acme_backend empty_store))
       else ([], [acme_backend], snd (mark_job_seen acme_backend empty_store)))"
    by blast
  have i: "filter_new [acme_backend, acme_backend_again, acme_backend] empty_store [] []
       = ([], [acme_backend], snd (mark_job_seen acme_backend empty_store))"
    unfolding i0 d by (simp only: simp_thms if_False)
  from a b k f g h i show ?thesis by blast
qed

text \<open>
  Claim C2 as stated fails on the returned value: for a key that is not in the store
  the call returns \<open>None\<close>, not \<open>True\<close>.
\<close>

theorem mark_job_seen_returns_none_counterexample:
  "\<not> is_job_seen acme_backend empty_store
   \<and> fst (mark_job_seen acme_backend empty_store) = PyNone
   \<and> fst (mark_job_seen acme_backend empty_store) \<noteq> PyBool True"
  by code_simp

section \<open>Verification: pending jobs\<close>

lemma mset_order_by_desc: "mset (order_by_desc col rows) = mset rows"
  by (simp add: order_by_desc_def)

lemma sorted_order_by_desc: "sorted_wrt (\<lambda>r r'. col r \<ge> col r') (order_by_desc col rows)"
proof -
  have "sorted (map col (sort_key col (rev rows)))" by (rule sorted_sort_key)
  then have "sorted_wrt (\<lambda>r r'. col r \<le> col r') (sort_key col (rev rows))"
    by (simp add: sorted_map)
  then show ?thesis by (simp add: order_by_desc_def sorted_wrt_rev)
qed

text \<open>
  Claim C5. The result of \<open>get_pending_jobs\<close> holds exactly the rows of \<open>seen_jobs\<close> (each
  as often as the table has it) whose contact address is not empty, for which no
  application has the same title and employer, and for which no draft, whatever its
  status, has the same key; and it is ordered by discovery time, newest first.
\<close>

theorem get_pending_jobs_correct:
  "mset (get_pending_jobs db) =
     filter_mset (\<lambda>s. s_application_email s \<noteq> []
          \<and> (\<forall>a\<in>set (applications db). \<not> (a_job_title a = s_title s \<and> a_company a = s_company s))
          \<and> (\<forall>d\<in>set (drafts db). d_job_unique_key d \<noteq> s_unique_key s))
       (mset (seen_jobs db))
   \<and> sorted_wrt (\<lambda>r r'. s_discovered_at r \<ge> s_discovered_at r') (get_pending_jobs db)"
proof
  show "mset (get_pending_jobs db) =
     filter_mset (\<lambda>s. s_application_email s \<noteq> []
          \<and> (\<forall>a\<in>set (applications db). \<not> (a_job_title a = s_title s \<and> a_company a = s_company s))
          \<and> (\<forall>d\<in>set (drafts db). d_job_unique_key d \<noteq> s_unique_key s))
       (mset (seen_jobs db))"
    by (simp add: get_pending_jobs_def mset_order_by_desc list_ex_iff)
  show "sorted_wrt (\<lambda>r r'. s_discovered_at r \<ge> s_discovered_at r') (get_pending_jobs db)"
    unfolding get_pending_jobs_def by (rule sorted_order_by_desc)
qed

theorem get_pending_jobs_correct_witness:
  "get_pending_jobs pending_example =
     [seen_row_of (posting ''React Developer'' ''Echo'' ''careers@echo.io'' ''2024-01-03T09:00:00''),
      seen_row_of (posting ''Backend Engineer'' ''Acme'' ''jobs@acme.io'' ''2024-01-02T09:00:00'')]
   \<and> mset [seen_row_of (posting ''React Developer'' ''Echo'' ''careers@echo.io'' ''2024-01-03T09:00:00''),
            seen_row_of (posting ''Backend Engineer'' ''Acme'' ''jobs@acme.io'' ''2024-01-02T09:00:00'')] =
     filter_mset (\<lambda>s. s_application_email s \<noteq> []
          \<and> (\<forall>a\<in>set (applications pending_example).
                \<not> (a_job_title a = s_title s \<and> a_company a = s_company s))
          \<and> (\<forall>d\<in>set (drafts pending_example). d_job_unique_key d \<noteq> s_unique_key s))
       (mset (seen_jobs pending_example))
   \<and> sorted_wrt (\<lambda>r r'. s_discovered_at r \<ge> s_discovered_at r')
       [seen_row_of (posting ''React Developer'' ''Echo'' ''careers@echo.io'' ''2024-01-03T09:00:00''),
        seen_row_of (posting ''Backend Engineer'' ''Acme'' ''jobs@acme.io'' ''2024-01-02T09:00:00'')]"
proof -
  have ev: "get_pending_jobs pending_example =
     [seen_row_of (posting ''React Developer'' ''Echo'' ''careers@echo.io'' ''2024-01-03T09:00:00''),
      seen_row_of (posting ''Backend Engineer'' ''Acme'' ''jobs@acme.io'' ''2024-01-02T09:00:00'')]"
    by code_simp
  note t = get_pending_jobs_correct[of pending_example, unfolded ev]
  from ev t show ?thesis by (rule conjI)
qed

section \<open>Verification: email discovery\<close>

lemma rank_emails_nonempty: "emails \<noteq> [] \<Longrightarrow> rank_emails emails \<noteq> []"
proof -
  assume ne: "emails \<noteq> []"
  define is_hr where "is_hr = (\<lambda>email. any_in COMMON_HR_PREFIXES (lower (before_first CHR ''@'' email)))"
  have "set (filter is_hr emails @ filter (\<lambda>email. \<not> is_hr email) emails) = set emails"
    by auto
  with ne have "filter is_hr emails @ filter (\<lambda>email. \<not> is_hr email) emails \<noteq> []"
    by (metis set_empty)
  with ne show ?thesis by (simp add: rank_emails_def Let_def is_hr_def)
qed

lemma find_application_email_strategy1:
  "extract_emails_from_text job_description \<noteq> [] \<Longrightarrow>
     find_application_email w job_description job_url company_name job_page_soup
       = (hd (rank_emails (extract_emails_from_text job_description)), [])"
  by (simp add: find_application_email_def Let_def rank_emails_nonempty)

lemma extract_emails_valid:
  "email \<in> set (extract_emails_from_text text) \<Longrightarrow> is_valid_email email"
  by (simp add: extract_emails_from_text_def)

lemma set_rank_emails: "set (rank_emails emails) = set emails"
  by (auto simp: rank_emails_def Let_def)

text \<open>
  Claim C6. The pattern finds the two addresses of the example description, in their
  order; the denylist drops \<open>noreply@acme.io\<close> for its prefix \<open>noreply\<close> and keeps
  \<open>jobs@acme.io\<close>, whose local part holds the HR token \<open>jobs\<close>; and with no page supplied
  the discovery returns \<open>jobs@acme.io\<close>, whatever the network would answer, without a
  request.
\<close>

theorem scenario_c_discovery:
  "findall_emails acme_description = [''jobs@acme.io'', ''noreply@acme.io'']
   \<and> before_first CHR ''@'' (lower ''noreply@acme.io'') \<in> set SKIP_PREFIXES
   \<and> \<not> is_valid_email ''noreply@acme.io''
   \<and> is_valid_email ''jobs@acme.io''
   \<and> any_in COMMON_HR_PREFIXES (lower (before_first CHR ''@'' ''jobs@acme.io''))
   \<and> rank_emails (extract_emails_from_text acme_description) = [''jobs@acme.io'']
   \<and> find_application_email w acme_description [] [] None = (''jobs@acme.io'', [])"
proof -
  have 1: "findall_emails acme_description = [''jobs@acme.io'', ''noreply@acme.io'']"
    by code_simp
  have 2: "before_first CHR ''@'' (lower ''noreply@acme.io'') \<in> set SKIP_PREFIXES"
    by code_simp
  have 3: "\<not> is_valid_email ''noreply@acme.io''" by code_simp
  have 4: "is_valid_email ''jobs@acme.io''" by code_simp
  have 5: "any_in COMMON_HR_PREFIXES (lower (before_first CHR ''@'' ''jobs@acme.io''))"
    by code_simp
  have e: "extract_emails_from_text acme_description = [''jobs@acme.io'']"
    by (simp add: extract_emails_from_text_def 1 3 4)
  have 6: "rank_emails (extract_emails_from_text acme_description) = [''jobs@acme.io'']"
    unfolding e by (simp add: rank_emails_def Let_def 5)
  have 7: "find_application_email w acme_description [] [] None = (''jobs@acme.io'', [])"
    using find_application_email_strategy1[of acme_description w "[]" "[]" None]
    by (simp add: 6[unfolded e] e)
  from 1 2 3 4 5 6 7 show ?thesis by blast
qed

text \<open>
  Claim C7. When the scan of the description yields an address that passes the
  denylist, the discovery returns the first of the ranked description addresses, which
  is one of them and passes the denylist, and the list of the URLs requested is empty:
  the page supplied, the employer name and the network have no part in the result.
\<close>

theorem cascade_short_circuit:
  assumes "extract_emails_from_text job_description \<noteq> []"
  shows "find_application_email w job_description job_url company_name job_page_soup
           = (hd (rank_emails (extract_emails_from_text job_description)), [])
     \<and> hd (rank_emails (extract_emails_from_text job_description))
           \<in> set (extract_emails_from_text job_description)
     \<and> is_valid_email (hd (rank_emails (extract_emails_from_text job_description)))"
proof -
  have ne: "rank_emails (extract_emails_from_text job_description) \<noteq> []"
    using assms by (rule rank_emails_nonempty)
  then have "hd (rank_emails (extract_emails_from_text job_description))
      \<in> set (rank_emails (extract_emails_from_text job_description))"
    by (rule hd_in_set)
  then have m: "hd (rank_emails (extract_emails_from_text job_description))
      \<in> set (extract_emails_from_text job_description)"
    by (simp only: set_rank_emails)
  from m have v: "is_valid_email (hd (rank_emails (extract_emails_from_text job_description)))"
    by (rule extract_emails_valid)
  from find_application_email_strategy1[OF assms] m v show ?thesis by blast
qed

theorem cascade_short_circuit_witness:
  "extract_emails_from_text ''Contact info@bolt.dev or careers@bolt.dev'' \<noteq> []
   \<and> find_application_email bolt_web ''Contact info@bolt.dev or careers@bolt.dev'' []
        ''Bolt'' (Some bolt_page) = (''careers@bolt.dev'', [])
   \<and> is_valid_email ''careers@bolt.dev''"
proof -
  have e: "extract_emails_from_text ''Contact info@bolt.dev or careers@bolt.dev''
      = [''info@bolt.dev'', ''careers@bolt.dev'']"
    by code_simp
  have r: "hd (rank_emails [''info@bolt.dev'', ''careers@bolt.dev'']) = ''careers@bolt.dev''"
    by code_simp
  have n: "extract_emails_from_text ''Contact info@bolt.dev or careers@bolt.dev'' \<noteq> []"
    by (simp add: e)
  note t = cascade_short_circuit[OF n, of bolt_web "[]" "''Bolt''" "Some bolt_page", unfolded e r]
  from n t show ?thesis by blast
qed

section \<open>Verification: the budget of a run\<close>

text \<open>
  The invariant rule of the sending loop: a property of the candidates still to
  handle and of the state, kept by the three ways through the body, holds at the exit, where
  no candidate is left or the budget is used up.
\<close>

lemma apply_loop_rule:
  assumes init: "P jobs st"
    and dry_step: "\<And>job js s. P (job # js) s \<Longrightarrow> applied_count s < m \<Longrightarrow> dry \<Longrightarrow>
        P js (s\<lparr>applied_count := applied_count s + 1,
               summary := (summary s)\<lparr>applications_sent := applications_sent (summary s) + 1\<rparr>\<rparr>)"
    and sent_step: "\<And>job js s. P (job # js) s \<Longrightarrow> applied_count s < m \<Longrightarrow> \<not> dry \<Longrightarrow>
        send_application_email w (length (deliveries s)) (application_email job)
          (fst (generate_application_email w job)) (snd (generate_application_email w job)) \<Longrightarrow>
        P js (s\<lparr>run_store := log_application
                   (application_of_job job (fst (generate_application_email w job))
                      (snd (generate_application_email w job)) (utcnow w (length (deliveries s))))
                   (run_store s),
               deliveries := deliveries s @ [(job, True)],
               applied_count := applied_count s + 1,
               summary := (summary s)\<lparr>applications_sent := applications_sent (summary s) + 1\<rparr>\<rparr>)"
    and failed_step: "\<And>job js s. P (job # js) s \<Longrightarrow> applied_count s < m \<Longrightarrow> \<not> dry \<Longrightarrow>
        \<not> send_application_email w (length (deliveries s)) (application_email job)
          (fst (generate_application_email w job)) (snd (generate_application_email w job)) \<Longrightarrow>
        P js (s\<lparr>deliveries := deliveries s @ [(job, False)],
               summary := (summary s)\<lparr>applications_failed := applications_failed (summary s) + 1\<rparr>\<rparr>)"
  shows "\<exists>js. P js (apply_loop w dry m jobs st)
           \<and> (js = [] \<or> applied_count (apply_loop w dry m jobs st) \<ge> m)"
  using init
proof (induction jobs arbitrary: st)
  case Nil
  then show ?case by auto
next
  case (Cons job jobs)
  show ?case
  proof (cases "applied_count st \<ge> m")
    case True
    with Cons.prems show ?thesis by auto
  next
    case False
    then have lt: "applied_count st < m" by simp
    show ?thesis
    proof (cases dry)
      case True
      from Cons.IH[OF dry_step[OF Cons.prems lt True]] False True
      show ?thesis by (simp add: split_beta)
    next
      case nd: False
      show ?thesis
      proof (cases "send_application_email w (length (deliveries st)) (application_email job)
          (fst (generate_application_email w job)) (snd (generate_application_email w job))")
        case True
        from Cons.IH[OF sent_step[OF Cons.prems lt nd True]] False nd True
        show ?thesis by (simp add: split_beta Let_def)
      next
        case sf: False
        from Cons.IH[OF failed_step[OF Cons.prems lt nd sf]] False nd sf
        show ?thesis by (simp add: split_beta Let_def)
      qed
    qed
  qed
qed

lemma apply_loop_budget:
  "applied_count (apply_loop w dry m jobs st) \<le> max (applied_count st) m"
  using apply_loop_rule[where P="\<lambda>js s. applied_count s \<le> max (applied_count st) m"
      and jobs=jobs and st=st and w=w and dry=dry and m=m]
  by auto

lemma apply_loop_sent_is_applied:
  "applications_sent (summary st) = applied_count st \<Longrightarrow>
     applications_sent (summary (apply_loop w dry m jobs st)) = applied_count (apply_loop w dry m jobs st)"
  using apply_loop_rule[where P="\<lambda>js s. applications_sent (summary s) = applied_count s"
      and jobs=jobs and st=st and w=w and dry=dry and m=m]
  by auto

lemma apply_loop_counts:
  assumes "\<not> dry"
    and "applications_sent (summary st) = int (length (filter snd (deliveries st)))"
    and "applications_failed (summary st) = int (length (filter (\<lambda>d. \<not> snd d) (deliveries st)))"
  shows "applications_sent (summary (apply_loop w dry m jobs st))
           = int (length (filter snd (deliveries (apply_loop w dry m jobs st))))
     \<and> applications_failed (summary (apply_loop w dry m jobs st))
           = int (length (filter (\<lambda>d. \<not> snd d) (deliveries (apply_loop w dry m jobs st))))"
  using apply_loop_rule[where P="\<lambda>js s.
        applications_sent (summary s) = int (length (filter snd (deliveries s)))
      \<and> applications_failed (summary s) = int (length (filter (\<lambda>d. \<not> snd d) (deliveries s)))"
      and jobs=jobs and st=st and w=w and dry=dry and m=m] assms
  by auto

lemma apply_loop_dry:
  assumes "dry"
  shows "deliveries (apply_loop w dry m jobs st) = deliveries st
     \<and> run_store (apply_loop w dry m jobs st) = run_store st
     \<and> applications_failed (summary (apply_loop w dry m jobs st)) = applications_failed (summary st)"
  using apply_loop_rule[where P="\<lambda>js s. deliveries s = deliveries st \<and> run_store s = run_store st
      \<and> applications_failed (summary s) = applications_failed (summary st)"
      and jobs=jobs and st=st and w=w and dry=dry and m=m] assms
  by auto

lemma apply_loop_goes_on:
  "applications_sent (summary (apply_loop w dry m jobs st))
      + applications_failed (summary (apply_loop w dry m jobs st))
     = applications_sent (summary st) + applications_failed (summary st) + int (length jobs)
   \<or> applied_count (apply_loop w dry m jobs st) \<ge> m"
  using apply_loop_rule[where P="\<lambda>js s.
        applications_sent (summary s) + applications_failed (summary s) + int (length js)
      = applications_sent (summary st) + applications_failed (summary st) + int (length jobs)"
      and jobs=jobs and st=st and w=w and dry=dry and m=m]
  by auto


lemma run_agent_shape:
  assumes "0 < max_applications_per_day limits - get_applications_today (today_start w) db0"
  shows "\<exists>js st. run_agent w limits dry scraped db0
            = apply_loop w dry (min (max_applications_per_run limits)
                (max_applications_per_day limits - get_applications_today (today_start w) db0)) js st
          \<and> applied_count st = 0 \<and> deliveries st = []
          \<and> applications_sent (summary st) = 0 \<and> applications_failed (summary st) = 0"
proof -
  obtain we ne db1 where f: "filter_new scraped db0 [] [] = (we, ne, db1)"
    by (cases "filter_new scraped db0 [] []") auto
  define st :: "(Job, summary) run" where "st = \<lparr>summary =
      \<lparr>jobs_found = int (length scraped), jobs_new = int (length we) + int (length ne),
       jobs_with_email = int (length we), jobs_no_email = int (length ne),
       applications_sent = 0, applications_failed = 0, dry_run = dry\<rparr>,
     run_store = db1, deliveries = [], applied_count = 0, raised = False\<rparr>"
  define m where "m = min (max_applications_per_run limits)
      (max_applications_per_day limits - get_applications_today (today_start w) db0)"
  have "run_agent w limits dry scraped db0 = apply_loop w dry m [] st
      \<or> run_agent w limits dry scraped db0
          = apply_loop w dry m (jobs_of (pick_best_per_company (map JobObj we) (get_contacted_companies db1))) st"
    using assms by (simp add: run_agent_def Let_def f st_def m_def)
  moreover have "applied_count st = 0 \<and> deliveries st = []
      \<and> applications_sent (summary st) = 0 \<and> applications_failed (summary st) = 0"
    by (simp add: st_def)
  ultimately show ?thesis unfolding m_def by blast
qed

text \<open>
  Claim C3, as amended. With \<open>remaining = max_per_day - sent_today\<close>:
  \<^item> if \<open>remaining \<le> 0\<close> the run returns a summary of zeros, the store as it was and no
    delivery attempt;
  \<^item> the number of applications counted as sent is at most
    \<open>max 0 (min max_per_run remaining)\<close>, and it is the budget counter of the run;
  \<^item> in a real run it is the number of deliveries that succeeded, and the failed counter
    is the number of deliveries that failed; in a dry run no delivery is attempted,
    nothing fails, and each candidate handled counts as sent;
  \<^item> a delivery that fails leaves the budget counter and the store as they are, adds one
    to the failed counter, and the loop goes on with the next candidate; so the loop,
    from any state, ends with every candidate handled (counted as sent or as failed) or
    with the budget used up.
\<close>

theorem run_agent_rate_limit:
  fixes w limits dry scraped db0
  defines "remaining \<equiv> max_applications_per_day limits - get_applications_today (today_start w) db0"
  defines "r \<equiv> run_agent w limits dry scraped db0"
  shows "(remaining \<le> 0 \<longrightarrow>
            r = \<lparr>summary = \<lparr>jobs_found = 0, jobs_new = 0, jobs_with_email = 0, jobs_no_email = 0,
                              applications_sent = 0, applications_failed = 0, dry_run = dry\<rparr>,
                  run_store = db0, deliveries = [], applied_count = 0, raised = False\<rparr>)
     \<and> applications_sent (summary r) \<le> max 0 (min (max_applications_per_run limits) remaining)
     \<and> applications_sent (summary r) = applied_count r
     \<and> (\<not> dry \<longrightarrow>
            applications_sent (summary r) = int (length (filter snd (deliveries r)))
          \<and> applications_failed (summary r) = int (length (filter (\<lambda>d. \<not> snd d) (deliveries r))))
     \<and> (dry \<longrightarrow> deliveries r = [] \<and> applications_failed (summary r) = 0)
     \<and> (\<not> dry \<and> applied_count st < m
          \<and> \<not> send_application_email w (length (deliveries st)) (application_email job)
                (fst (generate_application_email w job)) (snd (generate_application_email w job)) \<longrightarrow>
            apply_loop w dry m (job # jobs) st
              = apply_loop w dry m jobs
                  (st\<lparr>deliveries := deliveries st @ [(job, False)],
                      summary := (summary st)\<lparr>applications_failed := applications_failed (summary st) + 1\<rparr>\<rparr>))
     \<and> (applications_sent (summary (apply_loop w dry m jobs st))
            + applications_failed (summary (apply_loop w dry m jobs st))
          = applications_sent (summary st) + applications_failed (summary st) + int (length jobs)
        \<or> applied_count (apply_loop w dry m jobs st) \<ge> m)"
proof -
  have zero: "remaining \<le> 0 \<Longrightarrow>
            r = \<lparr>summary = \<lparr>jobs_found = 0, jobs_new = 0, jobs_with_email = 0, jobs_no_email = 0,
                              applications_sent = 0, applications_failed = 0, dry_run = dry\<rparr>,
                  run_store = db0, deliveries = [], applied_count = 0, raised = False\<rparr>"
    by (simp add: r_def remaining_def run_agent_def Let_def)
  have main: "applications_sent (summary r) \<le> max 0 (min (max_applications_per_run limits) remaining)
     \<and> applications_sent (summary r) = applied_count r
     \<and> (\<not> dry \<longrightarrow>
            applications_sent (summary r) = int (length (filter snd (deliveries r)))
          \<and> applications_failed (summary r) = int (length (filter (\<lambda>d. \<not> snd d) (deliveries r))))
     \<and> (dry \<longrightarrow> deliveries r = [] \<and> applications_failed (summary r) = 0)"
  proof (cases "remaining \<le> 0")
    case True
    from zero[OF True] show ?thesis by simp
  next
    case False
    then have pos: "0 < max_applications_per_day limits - get_applications_today (today_start w) db0"
      by (simp add: remaining_def)
    from run_agent_shape[OF pos, of dry scraped] obtain js s0 where
      eq: "r = apply_loop w dry (min (max_applications_per_run limits) remaining) js s0"
      and a0: "applied_count s0 = 0" and d0: "deliveries s0 = []"
      and s0: "applications_sent (summary s0) = 0" and f0: "applications_failed (summary s0) = 0"
      unfolding r_def remaining_def by blast
    have 1: "applied_count r \<le> max 0 (min (max_applications_per_run limits) remaining)"
      unfolding eq using apply_loop_budget[of w dry "min (max_applications_per_run limits) remaining" js s0]
      by (simp add: a0)
    have 2: "applications_sent (summary r) = applied_count r"
      unfolding eq by (rule apply_loop_sent_is_applied) (simp add: a0 s0)
    have 3: "\<not> dry \<longrightarrow>
            applications_sent (summary r) = int (length (filter snd (deliveries r)))
          \<and> applications_failed (summary r) = int (length (filter (\<lambda>d. \<not> snd d) (deliveries r)))"
    proof
      assume nd: "\<not> dry"
      show "applications_sent (summary r) = int (length (filter snd (deliveries r)))
          \<and> applications_failed (summary r) = int (length (filter (\<lambda>d. \<not> snd d) (deliveries r)))"
        unfolding eq by (rule apply_loop_counts[OF nd]) (simp_all add: d0 s0 f0)
    qed
    have 4: "dry \<longrightarrow> deliveries r = [] \<and> applications_failed (summary r) = 0"
    proof
      assume d: "dry"
      from apply_loop_dry[OF d, of w "min (max_applications_per_run limits) remaining" js s0]
      show "deliveries r = [] \<and> applications_failed (summary r) = 0"
        unfolding eq by (simp add: d0 f0)
    qed
    from 1 2 3 4 show ?thesis by simp
  qed
  have fail: "\<not> dry \<and> applied_count st < m
          \<and> \<not> send_application_email w (length (deliveries st)) (application_email job)
                (fst (generate_application_email w job)) (snd (generate_application_email w job)) \<longrightarrow>
            apply_loop w dry m (job # jobs) st
              = apply_loop w dry m jobs
                  (st\<lparr>deliveries := deliveries st @ [(job, False)],
                      summary := (summary st)\<lparr>applications_failed := applications_failed (summary st) + 1\<rparr>\<rparr>)"
    by (simp add: split_beta Let_def)
  note goes_on = apply_loop_goes_on[of w dry m jobs st]
  from zero main fail goes_on show ?thesis by blast
qed

theorem run_agent_rate_limit_witness:
  "max_applications_per_day \<lparr>max_applications_per_run = 10, max_applications_per_day = 5\<rparr>
      - get_applications_today (today_start flaky_world) busy_store = 2
   \<and> applications_sent (summary (run_agent flaky_world
        \<lparr>max_applications_per_run = 10, max_applications_per_day = 5\<rparr> False four_postings busy_store)) = 2
   \<and> applications_failed (summary (run_agent flaky_world
        \<lparr>max_applications_per_run = 10, max_applications_per_day = 5\<rparr> False four_postings busy_store)) = 1
   \<and> map snd (deliveries (run_agent flaky_world
        \<lparr>max_applications_per_run = 10, max_applications_per_day = 5\<rparr> False four_postings busy_store))
       = [False, True, True]
   \<and> applications_sent (summary (run_agent flaky_world
        \<lparr>max_applications_per_run = 10, max_applications_per_day = 5\<rparr> False four_postings busy_store))
       \<le> max 0 (min 10 2)
   \<and> max_applications_per_day \<lparr>max_applications_per_run = 10, max_applications_per_day = 3\<rparr>
      - get_applications_today (today_start flaky_world) busy_store \<le> 0
   \<and> deliveries (run_agent flaky_world
        \<lparr>max_applications_per_run = 10, max_applications_per_day = 3\<rparr> False four_postings busy_store) = []
   \<and> run_store (run_agent flaky_world
        \<lparr>max_applications_per_run = 10, max_applications_per_day = 3\<rparr> False four_postings busy_store)
       = busy_store"
proof -
  have a: "max_applications_per_day \<lparr>max_applications_per_run = 10, max_applications_per_day = 5\<rparr>
      - get_applications_today (today_start flaky_world) busy_store = 2"
    by code_simp
  have b: "applications_sent (summary (run_agent flaky_world
        \<lparr>max_applications_per_run = 10, max_applications_per_day = 5\<rparr> False four_postings busy_store)) = 2"
    by code_simp
  have c: "applications_failed (summary (run_agent flaky_world
        \<lparr>max_applications_per_run = 10, max_applications_per_day = 5\<rparr> False four_postings busy_store)) = 1"
    by code_simp
  have d: "map snd (deliveries (run_agent flaky_world
        \<lparr>max_applications_per_run = 10, max_applications_per_day = 5\<rparr> False four_postings busy_store))
       = [False, True, True]"
    by code_simp
  have e: "max_applications_per_run \<lparr>max_applications_per_run = 10, max_applications_per_day = 5\<rparr> = 10"
    by simp
  have f: "max_applications_per_day \<lparr>max_applications_per_run = 10, max_applications_per_day = 3\<rparr>
      - get_applications_today (today_start flaky_world) busy_store \<le> 0"
    by code_simp
  note t5 = run_agent_rate_limit[where w=flaky_world
      and limits="\<lparr>max_applications_per_run = 10, max_applications_per_day = 5\<rparr>"
      and dry=False and scraped=four_postings and ?db0.0=busy_store, unfolded a e]
  note t3 = run_agent_rate_limit[where w=flaky_world
      and limits="\<lparr>max_applications_per_run = 10, max_applications_per_day = 3\<rparr>"
      and dry=False and scraped=four_postings and ?db0.0=busy_store]
  from t5 have g: "applications_sent (summary (run_agent flaky_world
        \<lparr>max_applications_per_run = 10, max_applications_per_day = 5\<rparr> False four_postings busy_store))
       \<le> max 0 (min 10 2)" by blast
  from t3 f have h: "run_agent flaky_world
        \<lparr>max_applications_per_run = 10, max_applications_per_day = 3\<rparr> False four_postings busy_store
      = \<lparr>summary = \<lparr>jobs_found = 0, jobs_new = 0, jobs_with_email = 0, jobs_no_email = 0,
                              applications_sent = 0, applications_failed = 0, dry_run = False\<rparr>,
                  run_store = busy_store, deliveries = [], applied_count = 0, raised = False\<rparr>"
    by blast
  have i: "deliveries (run_agent flaky_world
        \<lparr>max_applications_per_run = 10, max_applications_per_day = 3\<rparr> False four_postings busy_store) = []"
    unfolding h by simp
  have j: "run_store (run_agent flaky_world
        \<lparr>max_applications_per_run = 10, max_applications_per_day = 3\<rparr> False four_postings busy_store)
       = busy_store"
    unfolding h by simp
  from a b c d g f i j show ?thesis by blast
qed

text \<open>
  Claim C3 as stated fails for a negative \<open>max_applications_per_run\<close>: with at most five
  applications a day, three sent today and \<open>-1\<close> a run, something remains for today, the
  loop stops at once with nothing sent, and \<open>0\<close> is not at most \<open>min (-1) 2\<close>.
\<close>

theorem run_agent_negative_budget_counterexample:
  "0 < max_applications_per_day \<lparr>max_applications_per_run = - 1, max_applications_per_day = 5\<rparr>
         - get_applications_today (today_start flaky_world) busy_store
   \<and> applications_sent (summary (run_agent flaky_world
        \<lparr>max_applications_per_run = - 1, max_applications_per_day = 5\<rparr> True four_postings busy_store)) = 0
   \<and> \<not> applications_sent (summary (run_agent flaky_world
        \<lparr>max_applications_per_run = - 1, max_applications_per_day = 5\<rparr> True four_postings busy_store))
       \<le> min (max_applications_per_run \<lparr>max_applications_per_run = - 1, max_applications_per_day = 5\<rparr>)
            (max_applications_per_day \<lparr>max_applications_per_run = - 1, max_applications_per_day = 5\<rparr>
               - get_applications_today (today_start flaky_world) busy_store)"
  by code_simp

section \<open>Verification: sending approved drafts\<close>

lemma send_drafts_loop_rule:
  assumes init: "P ds st"
    and dry_step: "\<And>draft js s. P (draft # js) s \<Longrightarrow> applied_count s < m \<Longrightarrow> dry \<Longrightarrow>
        P js (s\<lparr>applied_count := applied_count s + 1,
               summary := (summary s)\<lparr>sd_applications_sent := sd_applications_sent (summary s) + 1\<rparr>\<rparr>)"
    and sent_step: "\<And>draft js s src. P (draft # js) s \<Longrightarrow> applied_count s < m \<Longrightarrow> \<not> dry \<Longrightarrow>
        send_application_email w (length (deliveries s)) (d_recipient_email draft)
          (d_subject draft) (d_body draft) \<Longrightarrow>
        JobSource_of (d_source draft) = Some src \<Longrightarrow>
        P js (s\<lparr>run_store := snd (update_draft_status (d_id draft) ''sent''
                   (log_application (application_of_draft draft src (utcnow w (length (deliveries s))))
                      (run_store s))),
               deliveries := deliveries s @ [(draft, True)],
               applied_count := applied_count s + 1,
               summary := (summary s)\<lparr>sd_applications_sent := sd_applications_sent (summary s) + 1\<rparr>\<rparr>)"
    and raise_step: "\<And>draft js s. P (draft # js) s \<Longrightarrow> applied_count s < m \<Longrightarrow> \<not> dry \<Longrightarrow>
        send_application_email w (length (deliveries s)) (d_recipient_email draft)
          (d_subject draft) (d_body draft) \<Longrightarrow>
        JobSource_of (d_source draft) = None \<Longrightarrow>
        P js (s\<lparr>deliveries := deliveries s @ [(draft, True)], raised := True\<rparr>)"
    and failed_step: "\<And>draft js s. P (draft # js) s \<Longrightarrow> applied_count s < m \<Longrightarrow> \<not> dry \<Longrightarrow>
        \<not> send_application_email w (length (deliveries s)) (d_recipient_email draft)
          (d_subject draft) (d_body draft) \<Longrightarrow>
        P js (s\<lparr>deliveries := deliveries s @ [(draft, False)],
               summary := (summary s)\<lparr>sd_applications_failed := sd_applications_failed (summary s) + 1\<rparr>\<rparr>)"
  shows "\<exists>js. P js (send_drafts_loop w dry m ds st)"
  using init
proof (induction ds arbitrary: st)
  case Nil
  then show ?case by auto
next
  case (Cons draft ds)
  show ?case
  proof (cases "applied_count st \<ge> m")
    case True
    with Cons.prems show ?thesis by auto
  next
    case False
    then have lt: "applied_count st < m" by simp
    show ?thesis
    proof (cases dry)
      case True
      from Cons.IH[OF dry_step[OF Cons.prems lt True]] False True
      show ?thesis by simp
    next
      case nd: False
      show ?thesis
      proof (cases "send_application_email w (length (deliveries st)) (d_recipient_email draft)
          (d_subject draft) (d_body draft)")
        case ok: True
        show ?thesis
        proof (cases "JobSource_of (d_source draft)")
          case None
          from raise_step[OF Cons.prems lt nd ok None] False nd ok None
          show ?thesis by (auto simp: Let_def)
        next
          case (Some src)
          from Cons.IH[OF sent_step[OF Cons.prems lt nd ok Some]] False nd ok Some
          show ?thesis by (simp add: Let_def)
        qed
      next
        case sf: False
        from Cons.IH[OF failed_step[OF Cons.prems lt nd sf]] False nd sf
        show ?thesis by (simp add: Let_def)
      qed
    qed
  qed
qed


lemma drafts_after_sent:
  "drafts (snd (update_draft_status i st (log_application app db)))
     = map (\<lambda>d. if d_id d = i then d\<lparr>d_status := st\<rparr> else d) (drafts db)"
  by (simp add: update_draft_status_def log_application_def)

lemma applications_after_sent:
  "applications (snd (update_draft_status i st (log_application app db)))
     = applications db @ [application_row_of app]"
  by (simp add: update_draft_status_def log_application_def)

lemma company_of_logged_draft:
  "a_company (application_row_of (application_of_draft draft src now)) = d_company draft"
  by (simp add: application_row_of_def application_of_draft_def)

lemma map_id_status: "map d_id (map (\<lambda>d. if d_id d = i then d\<lparr>d_status := st\<rparr> else d) xs) = map d_id xs"
  by (induction xs) auto

lemma drafts_inv_dry:
  "drafts_inv dry ds D0 A0 (draft # js) s \<Longrightarrow> dry \<Longrightarrow>
     drafts_inv dry ds D0 A0 js
       (s\<lparr>applied_count := applied_count s + 1,
          summary := (summary s)\<lparr>sd_applications_sent := sd_applications_sent (summary s) + 1\<rparr>\<rparr>)"
  unfolding drafts_inv_def by auto

lemma drafts_inv_failed:
  assumes "drafts_inv dry ds D0 A0 (draft # js) s" and "\<not> dry"
  shows "drafts_inv dry ds D0 A0 js
       (s\<lparr>deliveries := deliveries s @ [(draft, False)],
          summary := (summary s)\<lparr>sd_applications_failed := sd_applications_failed (summary s) + 1\<rparr>\<rparr>)"
proof -
  from assms have 1: "map fst (deliveries s) @ draft # js = ds"
    and 2: "map d_id (drafts (run_store s)) = map d_id D0"
    and 3: "\<forall>x\<in>set D0. x \<in> set (drafts (run_store s))
            \<or> (\<exists>d. (d, True) \<in> set (deliveries s) \<and> d_id d = d_id x)"
    and 4: "\<exists>new. applications (run_store s) = A0 @ new
            \<and> (\<forall>a\<in>set new. \<exists>d. (d, True) \<in> set (deliveries s) \<and> a_company a = d_company d)"
    by (simp_all add: drafts_inv_def)
  from 3 have i3: "\<forall>x\<in>set D0. x \<in> set (drafts (run_store s))
            \<or> (\<exists>d. (d, True) \<in> set (deliveries s @ [(draft, False)]) \<and> d_id d = d_id x)"
    by auto
  from 4 have i4: "\<exists>new. applications (run_store s) = A0 @ new
            \<and> (\<forall>a\<in>set new. \<exists>d. (d, True) \<in> set (deliveries s @ [(draft, False)]) \<and> a_company a = d_company d)"
    by auto
  from 1 2 i3 i4 assms(2) show ?thesis by (simp add: drafts_inv_def)
qed

lemma drafts_inv_raise:
  assumes "drafts_inv dry ds D0 A0 (draft # js) s" and "\<not> dry"
  shows "drafts_inv dry ds D0 A0 js (s\<lparr>deliveries := deliveries s @ [(draft, True)], raised := True\<rparr>)"
proof -
  from assms have 1: "map fst (deliveries s) @ draft # js = ds"
    and 2: "map d_id (drafts (run_store s)) = map d_id D0"
    and 3: "\<forall>x\<in>set D0. x \<in> set (drafts (run_store s))
            \<or> (\<exists>d. (d, True) \<in> set (deliveries s) \<and> d_id d = d_id x)"
    and 4: "\<exists>new. applications (run_store s) = A0 @ new
            \<and> (\<forall>a\<in>set new. \<exists>d. (d, True) \<in> set (deliveries s) \<and> a_company a = d_company d)"
    by (simp_all add: drafts_inv_def)
  from 3 have i3: "\<forall>x\<in>set D0. x \<in> set (drafts (run_store s))
            \<or> (\<exists>d. (d, True) \<in> set (deliveries s @ [(draft, True)]) \<and> d_id d = d_id x)"
    by auto
  from 4 have i4: "\<exists>new. applications (run_store s) = A0 @ new
            \<and> (\<forall>a\<in>set new. \<exists>d. (d, True) \<in> set (deliveries s @ [(draft, True)]) \<and> a_company a = d_company d)"
    by fastforce
  from 1 2 i3 i4 assms(2) show ?thesis by (simp add: drafts_inv_def)
qed

lemma drafts_inv_sent:
  assumes "drafts_inv dry ds D0 A0 (draft # js) s" and "\<not> dry"
  shows "drafts_inv dry ds D0 A0 js
       (s\<lparr>run_store := snd (update_draft_status (d_id draft) ''sent''
                   (log_application (application_of_draft draft src now) (run_store s))),
          deliveries := deliveries s @ [(draft, True)],
          applied_count := applied_count s + 1,
          summary := (summary s)\<lparr>sd_applications_sent := sd_applications_sent (summary s) + 1\<rparr>\<rparr>)"
proof -
  from assms have 1: "map fst (deliveries s) @ draft # js = ds"
    and 2: "map d_id (drafts (run_store s)) = map d_id D0"
    and 3: "\<forall>x\<in>set D0. x \<in> set (drafts (run_store s))
            \<or> (\<exists>d. (d, True) \<in> set (deliveries s) \<and> d_id d = d_id x)"
    and 4: "\<exists>new. applications (run_store s) = A0 @ new
            \<and> (\<forall>a\<in>set new. \<exists>d. (d, True) \<in> set (deliveries s) \<and> a_company a = d_company d)"
    by (simp_all add: drafts_inv_def)
  let ?upd = "\<lambda>d. if d_id d = d_id draft then d\<lparr>d_status := ''sent''\<rparr> else d"
  have i3: "\<forall>x\<in>set D0. x \<in> set (map ?upd (drafts (run_store s)))
            \<or> (\<exists>d. (d, True) \<in> set (deliveries s @ [(draft, True)]) \<and> d_id d = d_id x)"
  proof
    fix x assume "x \<in> set D0"
    with 3 have "x \<in> set (drafts (run_store s))
        \<or> (\<exists>d. (d, True) \<in> set (deliveries s) \<and> d_id d = d_id x)" by blast
    then show "x \<in> set (map ?upd (drafts (run_store s)))
            \<or> (\<exists>d. (d, True) \<in> set (deliveries s @ [(draft, True)]) \<and> d_id d = d_id x)"
    proof
      assume m: "x \<in> set (drafts (run_store s))"
      show ?thesis
      proof (cases "d_id x = d_id draft")
        case True
        then show ?thesis by auto
      next
        case False
        with m have "?upd x = x" "?upd x \<in> set (map ?upd (drafts (run_store s)))" by auto
        then show ?thesis by simp
      qed
    next
      assume "\<exists>d. (d, True) \<in> set (deliveries s) \<and> d_id d = d_id x"
      then show ?thesis by auto
    qed
  qed
  from 4 obtain new where n: "applications (run_store s) = A0 @ new"
    and na: "\<forall>a\<in>set new. \<exists>d. (d, True) \<in> set (deliveries s) \<and> a_company a = d_company d"
    by blast
  let ?row = "application_row_of (application_of_draft draft src now)"
  have "\<forall>a\<in>set (new @ [?row]). \<exists>d. (d, True) \<in> set (deliveries s @ [(draft, True)])
      \<and> a_company a = d_company d"
  proof
    fix a assume "a \<in> set (new @ [?row])"
    then have "a \<in> set new \<or> a = ?row" by auto
    then show "\<exists>d. (d, True) \<in> set (deliveries s @ [(draft, True)]) \<and> a_company a = d_company d"
    proof
      assume "a \<in> set new"
      with na obtain d where "(d, True) \<in> set (deliveries s)" "a_company a = d_company d" by blast
      then show ?thesis by auto
    next
      assume "a = ?row"
      then have "a_company a = d_company draft" by (simp add: company_of_logged_draft)
      then show ?thesis by auto
    qed
  qed
  with n have i4: "\<exists>new'. applications (run_store s) @ [?row] = A0 @ new'
      \<and> (\<forall>a\<in>set new'. \<exists>d. (d, True) \<in> set (deliveries s @ [(draft, True)]) \<and> a_company a = d_company d)"
    by (intro exI[of _ "new @ [?row]"]) simp
  let ?s' = "s\<lparr>run_store := snd (update_draft_status (d_id draft) ''sent''
                   (log_application (application_of_draft draft src now) (run_store s))),
          deliveries := deliveries s @ [(draft, True)],
          applied_count := applied_count s + 1,
          summary := (summary s)\<lparr>sd_applications_sent := sd_applications_sent (summary s) + 1\<rparr>\<rparr>"
  have f1: "deliveries ?s' = deliveries s @ [(draft, True)]" by simp
  have f2: "run_store ?s' = snd (update_draft_status (d_id draft) ''sent''
                   (log_application (application_of_draft draft src now) (run_store s)))" by simp
  show ?thesis
    unfolding drafts_inv_def
  proof (intro conjI)
    show "if dry then deliveries ?s' = [] else map fst (deliveries ?s') @ js = ds"
      using 1 assms(2) by simp
    show "map d_id (drafts (run_store ?s')) = map d_id D0"
      using 2 by (simp only: f2 drafts_after_sent map_id_status)
    show "\<forall>x\<in>set D0. x \<in> set (drafts (run_store ?s'))
            \<or> (\<exists>d. (d, True) \<in> set (deliveries ?s') \<and> d_id d = d_id x)"
      using i3 by (simp only: f1 f2 drafts_after_sent)
    show "\<exists>new. applications (run_store ?s') = A0 @ new
            \<and> (\<forall>a\<in>set new. \<exists>d. (d, True) \<in> set (deliveries ?s') \<and> a_company a = d_company d)"
      using i4 by (simp only: f1 f2 applications_after_sent)
  qed
qed

lemma send_drafts_loop_inv:
  assumes "drafts_inv dry ds D0 A0 ds st"
  shows "\<exists>js. drafts_inv dry ds D0 A0 js (send_drafts_loop w dry m ds st)"
proof (rule send_drafts_loop_rule[where P="drafts_inv dry ds D0 A0"])
  show "drafts_inv dry ds D0 A0 ds st" by (rule assms)
qed (auto intro: drafts_inv_dry drafts_inv_sent drafts_inv_raise drafts_inv_failed)


lemma set_order_by_desc: "set (order_by_desc col rows) = set rows"
  by (simp add: order_by_desc_def)

lemma set_get_drafts:
  "st \<noteq> [] \<Longrightarrow> set (get_drafts (Some st) db) = {d \<in> set (drafts db). d_status d = st}"
  by (simp add: get_drafts_def set_order_by_desc)

lemma dedup_drafts_props:
  assumes "distinct (map (\<lambda>d. lower (strip (d_company d))) acc)"
    and "(\<lambda>d. lower (strip (d_company d))) ` set acc \<subseteq> seen"
  shows "distinct (map (\<lambda>d. lower (strip (d_company d))) (dedup_drafts xs seen already acc))
     \<and> set (dedup_drafts xs seen already acc) \<subseteq> set acc \<union> set xs"
  using assms
proof (induction xs arbitrary: seen acc)
  case Nil
  then show ?case by simp
next
  case (Cons x xs)
  show ?case
  proof (cases "lower (strip (d_company x)) \<in> seen \<or> lower (strip (d_company x)) \<in> already")
    case True
    with Cons.IH[OF Cons.prems] show ?thesis by (auto simp: Let_def)
  next
    case False
    have d: "distinct (map (\<lambda>d. lower (strip (d_company d))) (acc @ [x]))"
      using Cons.prems False by auto
    have s: "(\<lambda>d. lower (strip (d_company d))) ` set (acc @ [x]) \<subseteq> insert (lower (strip (d_company x))) seen"
      using Cons.prems by auto
    from Cons.IH[OF d s] False show ?thesis by (auto simp: Let_def)
  qed
qed

lemma send_approved_drafts_shape:
  "\<exists>ds st m. send_approved_drafts w limits send_all dry db0 = send_drafts_loop w dry m ds st
     \<and> run_store st = db0 \<and> deliveries st = []
     \<and> distinct (map (\<lambda>d. lower (strip (d_company d))) ds)
     \<and> set ds \<subseteq> set (drafts db0)
     \<and> (\<forall>d\<in>set ds. d_status d = ''approved'' \<or> send_all \<and> d_status d = ''pending'')"
proof -
  define summary0 where "summary0 = \<lparr>drafts_found = 0, sd_applications_sent = 0,
      sd_applications_failed = 0, sd_dry_run = dry\<rparr>"
  define st0 :: "(draft_row, drafts_summary) run" where
    "st0 = \<lparr>summary = summary0, run_store = db0, deliveries = [], applied_count = 0, raised = False\<rparr>"
  define found where "found = get_drafts (Some ''approved'') db0
      @ (if send_all then get_drafts (Some ''pending'') db0 else [])"
  define ud where "ud = dedup_drafts found {} (get_sent_companies db0) []"
  define m where "m = min (max_applications_per_run limits)
      (max_applications_per_day limits - get_applications_today (today_start w) db0)"
  have fnd: "set found \<subseteq> {d \<in> set (drafts db0). d_status d = ''approved'' \<or> send_all \<and> d_status d = ''pending''}"
    by (auto simp: found_def set_get_drafts)
  from dedup_drafts_props[of "[]" "{}" found "get_sent_companies db0"]
  have ud1: "distinct (map (\<lambda>d. lower (strip (d_company d))) ud)" and ud2: "set ud \<subseteq> set found"
    by (simp_all add: ud_def)
  have cases: "send_approved_drafts w limits send_all dry db0 = st0
      \<or> send_approved_drafts w limits send_all dry db0
          = st0\<lparr>summary := summary0\<lparr>drafts_found := int (length found)\<rparr>\<rparr>
      \<or> send_approved_drafts w limits send_all dry db0
          = send_drafts_loop w dry m ud (st0\<lparr>summary := summary0\<lparr>drafts_found := int (length ud)\<rparr>\<rparr>)"
    unfolding send_approved_drafts_def Let_def summary0_def[symmetric] st0_def[symmetric]
      found_def[symmetric] m_def[symmetric] ud_def[symmetric]
    by auto
  have e: "\<And>s. s = send_drafts_loop w dry m [] s" by simp
  from cases show ?thesis
  proof (elim disjE)
    assume a: "send_approved_drafts w limits send_all dry db0 = st0"
    show ?thesis
      by (rule exI[of _ "[]"], rule exI[of _ st0], rule exI[of _ m]) (simp add: a st0_def)
  next
    assume a: "send_approved_drafts w limits send_all dry db0
          = st0\<lparr>summary := summary0\<lparr>drafts_found := int (length found)\<rparr>\<rparr>"
    show ?thesis
      by (rule exI[of _ "[]"], rule exI[of _ "st0\<lparr>summary := summary0\<lparr>drafts_found := int (length found)\<rparr>\<rparr>"],
          rule exI[of _ m]) (simp add: a st0_def)
  next
    assume a: "send_approved_drafts w limits send_all dry db0
          = send_drafts_loop w dry m ud (st0\<lparr>summary := summary0\<lparr>drafts_found := int (length ud)\<rparr>\<rparr>)"
    have "set ud \<subseteq> set (drafts db0)"
      and "\<forall>d\<in>set ud. d_status d = ''approved'' \<or> send_all \<and> d_status d = ''pending''"
      using ud2 fnd by auto
    with ud1 show ?thesis
      by (intro exI[of _ ud] exI[of _ "st0\<lparr>summary := summary0\<lparr>drafts_found := int (length ud)\<rparr>\<rparr>"]
          exI[of _ m]) (simp add: a st0_def)
  qed
qed

lemma find_distinct_key:
  "distinct (map f xs) \<Longrightarrow> x \<in> set xs \<Longrightarrow> find (\<lambda>y. f y = f x) xs = Some x"
  by (induction xs) (auto simp: image_iff)


text \<open>
  Claim C10. Let the store have distinct draft ids, and let \<open>d\<close> be a draft whose
  delivery in a run of \<open>send_approved_drafts\<close> returned false. Then \<open>d\<close> is a row of the
  drafts table before the run and, unchanged in every field, after it, where its id finds
  it; its status is \<open>approved\<close> (or \<open>pending\<close>, with \<open>send_all\<close>) and not \<open>sent\<close>, so the
  query of a later run lists it again; the rows that were in the applications table are as
  they were, and no row the run has added is for the employer of \<open>d\<close>.
\<close>

theorem failed_draft_untouched:
  assumes ids: "distinct (map d_id (drafts db0))"
    and failed: "(d, False) \<in> set (deliveries (send_approved_drafts w limits send_all dry db0))"
  shows "d \<in> set (drafts db0)
     \<and> d \<in> set (drafts (run_store (send_approved_drafts w limits send_all dry db0)))
     \<and> get_draft_by_id (d_id d) (run_store (send_approved_drafts w limits send_all dry db0)) = Some d
     \<and> (d_status d = ''approved'' \<or> send_all \<and> d_status d = ''pending'')
     \<and> d \<in> set (get_drafts (Some (d_status d)) (run_store (send_approved_drafts w limits send_all dry db0)))
     \<and> take (length (applications db0))
          (applications (run_store (send_approved_drafts w limits send_all dry db0))) = applications db0
     \<and> (\<forall>a\<in>set (drop (length (applications db0))
                  (applications (run_store (send_approved_drafts w limits send_all dry db0)))).
           lower (strip (a_company a)) \<noteq> lower (strip (d_company d)))"
proof -
  define r where "r = send_approved_drafts w limits send_all dry db0"
  from send_approved_drafts_shape[of w limits send_all dry db0]
  obtain ds st m where eq: "r = send_drafts_loop w dry m ds st"
    and st1: "run_store st = db0" and st2: "deliveries st = []"
    and keys: "distinct (map (\<lambda>d. lower (strip (d_company d))) ds)"
    and sub: "set ds \<subseteq> set (drafts db0)"
    and status: "\<forall>d\<in>set ds. d_status d = ''approved'' \<or> send_all \<and> d_status d = ''pending''"
    unfolding r_def by blast
  have "drafts_inv dry ds (drafts db0) (applications db0) ds st"
    by (simp add: drafts_inv_def st1 st2)
  from send_drafts_loop_inv[OF this, of w m] obtain js
    where inv: "drafts_inv dry ds (drafts db0) (applications db0) js r"
    unfolding eq by blast
  from failed have f: "(d, False) \<in> set (deliveries r)" by (simp add: r_def)
  have nd: "\<not> dry"
  proof
    assume dry
    with inv have "deliveries r = []" by (simp add: drafts_inv_def)
    with f show False by simp
  qed
  from inv nd have pre: "map fst (deliveries r) @ js = ds"
    and idmap: "map d_id (drafts (run_store r)) = map d_id (drafts db0)"
    and rows: "\<forall>x\<in>set (drafts db0). x \<in> set (drafts (run_store r))
            \<or> (\<exists>d'. (d', True) \<in> set (deliveries r) \<and> d_id d' = d_id x)"
    and apps: "\<exists>new. applications (run_store r) = applications db0 @ new
            \<and> (\<forall>a\<in>set new. \<exists>d'. (d', True) \<in> set (deliveries r) \<and> a_company a = d_company d')"
    by (simp_all add: drafts_inv_def)
  have dist_ds: "distinct ds" using keys by (rule distinct_map[THEN iffD1, THEN conjunct1])
  have handled: "\<And>x b. (x, b) \<in> set (deliveries r) \<Longrightarrow> x \<in> set ds"
  proof -
    fix x b assume "(x, b) \<in> set (deliveries r)"
    then have "x \<in> set (map fst (deliveries r))" by force
    then show "x \<in> set ds" unfolding pre[symmetric] by simp
  qed
  have dist_del: "distinct (map fst (deliveries r))"
    using dist_ds unfolding pre[symmetric] by simp
  have in_ds: "d \<in> set ds" using f by (rule handled)
  have 1: "d \<in> set (drafts db0)" using in_ds sub by blast
  have other: "\<And>d'. (d', True) \<in> set (deliveries r) \<Longrightarrow> d' \<noteq> d"
  proof
    fix d' assume t: "(d', True) \<in> set (deliveries r)" and "d' = d"
    then have "(d, True) \<in> set (deliveries r)" by simp
    from eq_key_imp_eq_value[OF dist_del this f] show False by simp
  qed
  have no_id: "\<not> (\<exists>d'. (d', True) \<in> set (deliveries r) \<and> d_id d' = d_id d)"
  proof
    assume "\<exists>d'. (d', True) \<in> set (deliveries r) \<and> d_id d' = d_id d"
    then obtain d' where t: "(d', True) \<in> set (deliveries r)" and i: "d_id d' = d_id d" by blast
    from handled[OF t] sub have "d' \<in> set (drafts db0)" by blast
    with 1 i ids have "d' = d" by (simp add: inj_on_eq_iff[OF distinct_map[THEN iffD1, THEN conjunct2]])
    with other[OF t] show False by simp
  qed
  from rows 1 no_id have 2: "d \<in> set (drafts (run_store r))" by blast
  have "distinct (map d_id (drafts (run_store r)))" using ids by (simp only: idmap)
  from find_distinct_key[OF this 2]
  have 3: "get_draft_by_id (d_id d) (run_store r) = Some d" by (simp add: get_draft_by_id_def)
  from status in_ds have 4: "d_status d = ''approved'' \<or> send_all \<and> d_status d = ''pending''"
    by blast
  then have "d_status d \<noteq> []" by auto
  then have 5: "d \<in> set (get_drafts (Some (d_status d)) (run_store r))"
    using 2 by (simp add: set_get_drafts)
  from apps obtain new where n: "applications (run_store r) = applications db0 @ new"
    and na: "\<forall>a\<in>set new. \<exists>d'. (d', True) \<in> set (deliveries r) \<and> a_company a = d_company d'"
    by blast
  have 6: "take (length (applications db0)) (applications (run_store r)) = applications db0"
    by (simp add: n)
  have 7: "\<forall>a\<in>set (drop (length (applications db0)) (applications (run_store r))).
           lower (strip (a_company a)) \<noteq> lower (strip (d_company d))"
  proof
    fix a assume "a \<in> set (drop (length (applications db0)) (applications (run_store r)))"
    then have "a \<in> set new" by (simp add: n)
    with na obtain d' where t: "(d', True) \<in> set (deliveries r)" and c: "a_company a = d_company d'"
      by blast
    from other[OF t] have "d' \<noteq> d" .
    moreover from handled[OF t] have "d' \<in> set ds" .
    ultimately have "lower (strip (d_company d')) \<noteq> lower (strip (d_company d))"
      using in_ds keys by (auto simp: distinct_map inj_on_def)
    with c show "lower (strip (a_company a)) \<noteq> lower (strip (d_company d))" by simp
  qed
  from 1 2 3 4 5 6 7 show ?thesis unfolding r_def by blast
qed

theorem failed_draft_untouched_witness:
  "distinct (map d_id (drafts two_drafts_store))
   \<and> deliveries (send_approved_drafts flaky_world
        \<lparr>max_applications_per_run = 10, max_applications_per_day = 30\<rparr> False False two_drafts_store)
       = [(approved_draft 2 ''Bolt'' ''2024-03-01T10:00:00'', False),
          (approved_draft 1 ''Acme'' ''2024-03-01T09:00:00'', True)]
   \<and> get_draft_by_id 2 (run_store (send_approved_drafts flaky_world
        \<lparr>max_applications_per_run = 10, max_applications_per_day = 30\<rparr> False False two_drafts_store))
       = Some (approved_draft 2 ''Bolt'' ''2024-03-01T10:00:00'')
   \<and> map a_company (applications (run_store (send_approved_drafts flaky_world
        \<lparr>max_applications_per_run = 10, max_applications_per_day = 30\<rparr> False False two_drafts_store)))
       = [''Acme'']
   \<and> map d_status (drafts (run_store (send_approved_drafts flaky_world
        \<lparr>max_applications_per_run = 10, max_applications_per_day = 30\<rparr> False False two_drafts_store)))
       = [''sent'', ''approved'']"
proof -
  have a: "distinct (map d_id (drafts two_drafts_store))" by code_simp
  have b: "deliveries (send_approved_drafts flaky_world
        \<lparr>max_applications_per_run = 10, max_applications_per_day = 30\<rparr> False False two_drafts_store)
       = [(approved_draft 2 ''Bolt'' ''2024-03-01T10:00:00'', False),
          (approved_draft 1 ''Acme'' ''2024-03-01T09:00:00'', True)]"
    by code_simp
  have m: "(approved_draft 2 ''Bolt'' ''2024-03-01T10:00:00'', False)
      \<in> set (deliveries (send_approved_drafts flaky_world
        \<lparr>max_applications_per_run = 10, max_applications_per_day = 30\<rparr> False False two_drafts_store))"
    unfolding b by simp
  have i: "d_id (approved_draft 2 ''Bolt'' ''2024-03-01T10:00:00'') = 2"
    by (simp add: approved_draft_def)
  note t = failed_draft_untouched[OF a m, unfolded i]
  from t have c: "get_draft_by_id 2 (run_store (send_approved_drafts flaky_world
        \<lparr>max_applications_per_run = 10, max_applications_per_day = 30\<rparr> False False two_drafts_store))
       = Some (approved_draft 2 ''Bolt'' ''2024-03-01T10:00:00'')"
    by blast
  have d: "map a_company (applications (run_store (send_approved_drafts flaky_world
        \<lparr>max_applications_per_run = 10, max_applications_per_day = 30\<rparr> False False two_drafts_store)))
       = [''Acme'']"
    by code_simp
  have e: "map d_status (drafts (run_store (send_approved_drafts flaky_world
        \<lparr>max_applications_per_run = 10, max_applications_per_day = 30\<rparr> False False two_drafts_store)))
       = [''sent'', ''approved'']"
    by code_simp
  from a b c d e show ?thesis by blast
qed

end
